theory Spec2Isabelle
  imports Complex_Main
begin

section \<open>Interactive cards: the canvas engine of interactive-cards.component.ts\<close>

text \<open>
  The component keeps its cards as JavaScript objects that are shared by reference between
  the \<open>cards\<close> array, the selection, the pending connection and the connectors, and it
  mutates them in place. The model therefore has an explicit object store: a card
  reference is an address (an index into \<open>store\<close>), a new object is appended to the store,
  and \<open>===\<close> on cards is equality of addresses. JavaScript numbers are modelled as exact
  reals; \<open>Math.round\<close> rounds halves upwards. The program computes in floating point,
  where a comparison that is an exact tie in the reals (two rectangles that exactly
  touch, two overlap depths that are exactly equal, a value halfway between two grid
  lines) can fall either way. The properties below are stated so as not to depend on such
  ties: they compare quantities in the form in which the program computes them, or they
  assume a margin. A deleted card stays in the store as an unreferenced object. The
  rectangle selection, the wheel and keyboard dispatch and the
  drawing of the connector paths play no part in the properties below and are left out.
\<close>

subsection \<open>Data model\<close>

type_synonym ref = nat

record card =
  id_str :: string
  title :: string
  inputValue :: string
  baseX :: real
  baseY :: real
  baseWidth :: real
  baseHeight :: real

text \<open>A connector holds two card references; its SVG path is derived drawing state.\<close>

record connector =
  from_c :: ref
  to_c :: ref

record clipConn =
  fromId :: string
  toId :: string

record clipItem =
  item_baseX :: real
  item_baseY :: real
  item_baseWidth :: real
  item_baseHeight :: real
  item_title :: string
  item_inputValue :: string
  connections :: "clipConn list"

record state =
  scale :: real
  cardCount :: nat
  store :: "card list"
  cards :: "ref list"
  connectors :: "connector list"
  connectingFrom :: "ref option"
  selectedCards :: "ref list"
  clipboard :: "clipItem list"
  gridSpacing :: real

text \<open>A DOMRect as constructed by \<open>new DOMRect(x, y, width, height)\<close>.\<close>

record domRect =
  rx :: real
  ry :: real
  rwidth :: real
  rheight :: real

definition rect_left :: "domRect \<Rightarrow> real" where
  "rect_left d = min (rx d) (rx d + rwidth d)"

definition rect_top :: "domRect \<Rightarrow> real" where
  "rect_top d = min (ry d) (ry d + rheight d)"

text \<open>
  A decoded mouse event. \<open>targetIsInput\<close> is \<open>event.target instanceof HTMLInputElement\<close>;
  \<open>elementRect\<close> is what \<open>getBoundingClientRect\<close> reports for the card's element, or
  \<open>None\<close> when \<open>querySelector\<close> finds no element.
\<close>

record mouseEvent =
  altKey :: bool
  ctrlKey :: bool
  shiftKey :: bool
  clientX :: real
  clientY :: real
  targetIsInput :: bool
  elementRect :: "domRect option"

datatype direction =
  Top | Bottom | Left | Right | TopLeft | TopRight | BottomLeft | BottomRight

record dragOffset =
  off_card :: ref
  offsetX :: real
  offsetY :: real

record resizeStart =
  res_card :: ref
  res_direction :: direction
  startX :: real
  startY :: real
  initialWidth :: real
  initialHeight :: real
  initialX :: real
  initialY :: real

text \<open>The listeners that a pointer-down leaves registered on the document.\<close>

datatype gesture = NoGesture | Drag "dragOffset list" | Resize resizeStart

definition borderWidth :: real where
  "borderWidth = 10"

definition initialState :: state where
  "initialState = \<lparr>scale = 1, cardCount = 0, store = [], cards = [], connectors = [],
     connectingFrom = None, selectedCards = [], clipboard = [], gridSpacing = 50\<rparr>"

subsection \<open>Strings\<close>

fun string_of_nat :: "nat \<Rightarrow> string" where
  "string_of_nat n = (if n < 10 then [''0123456789'' ! n]
     else string_of_nat (n div 10) @ [''0123456789'' ! (n mod 10)])"

declare string_of_nat.simps [simp del]

text \<open>\<open>s.replace(pat, rep)\<close> with a string pattern: the first occurrence only.\<close>

fun replace_first :: "string \<Rightarrow> string \<Rightarrow> string \<Rightarrow> string" where
  "replace_first pat rep [] = (if pat = [] then rep else [])"
| "replace_first pat rep (c # cs) =
     (if take (length pat) (c # cs) = pat then rep @ drop (length pat) (c # cs)
      else c # replace_first pat rep cs)"

subsection \<open>Grid snapping and card creation\<close>

definition math_round :: "real \<Rightarrow> int" where
  "math_round v = \<lfloor>v + 1 / 2\<rfloor>"

definition snapToGrid :: "state \<Rightarrow> real \<Rightarrow> real" where
  "snapToGrid st v =
     of_int (math_round (v / (gridSpacing st * scale st))) * (gridSpacing st * scale st)"

text \<open>In-place mutation of the card object at an address.\<close>

definition updCard :: "ref \<Rightarrow> (card \<Rightarrow> card) \<Rightarrow> state \<Rightarrow> state" where
  "updCard r f st = st\<lparr>store := (store st)[r := f (store st ! r)]\<rparr>"

definition adjustCardsAfterGridChange :: "state \<Rightarrow> state" where
  "adjustCardsAfterGridChange st =
     fold (\<lambda>r s. updCard r (\<lambda>c. c\<lparr>baseX := snapToGrid s (baseX c),
                                     baseY := snapToGrid s (baseY c),
                                     baseWidth := snapToGrid s (baseWidth c),
                                     baseHeight := snapToGrid s (baseHeight c)\<rparr>) s)
          (cards st) st"

definition setGridSpacing :: "real \<Rightarrow> state \<Rightarrow> state" where
  "setGridSpacing sz st =
     adjustCardsAfterGridChange (st\<lparr>gridSpacing := max 10 (min 200 sz)\<rparr>)"

text \<open>
  \<open>addNewCard\<close> has default arguments; they are evaluated on entry, before the counter is
  incremented. \<open>None\<close> stands for an omitted argument.
\<close>

definition addNewCard :: "real option \<Rightarrow> real option \<Rightarrow> state \<Rightarrow> state" where
  "addNewCard xo yo st =
     (let x = (case xo of Some v \<Rightarrow> v
               | None \<Rightarrow> 100 / scale st + real (cardCount st) * 50 / scale st);
          y = (case yo of Some v \<Rightarrow> v
               | None \<Rightarrow> 100 / scale st + real (cardCount st) * 50 / scale st);
          n = cardCount st + 1;
          newCard = \<lparr>id_str = ''card'' @ string_of_nat n,
                     title = ''Card '' @ string_of_nat n,
                     inputValue = '''',
                     baseX = snapToGrid st x,
                     baseY = snapToGrid st y,
                     baseWidth = 200,
                     baseHeight = 100\<rparr>
      in st\<lparr>cardCount := n,
             store := store st @ [newCard],
             cards := cards st @ [length (store st)]\<rparr>)"

definition ngAfterViewInit :: "state \<Rightarrow> state" where
  "ngAfterViewInit st = addNewCard (Some 400) (Some 200) (addNewCard (Some 100) (Some 100) st)"

subsection \<open>Overlap resolution\<close>

record rect =
  r_left :: real
  r_top :: real
  r_right :: real
  r_bottom :: real

definition overlapStep ::
  "state \<Rightarrow> ref \<Rightarrow> rect \<Rightarrow> ref \<Rightarrow> real \<times> real \<Rightarrow> real \<times> real" where
  "overlapStep st movingCard movingRect otherCard adj =
     (if otherCard = movingCard \<or> otherCard \<in> set (selectedCards st) then adj
      else
        let mc = store st ! movingCard;
            oc = store st ! otherCard;
            otherRect = \<lparr>r_left = baseX oc * scale st,
                         r_top = baseY oc * scale st,
                         r_right = (baseX oc + baseWidth oc) * scale st,
                         r_bottom = (baseY oc + baseHeight oc) * scale st\<rparr>
        in
          if r_left movingRect < r_right otherRect \<and>
             r_right movingRect > r_left otherRect \<and>
             r_top movingRect < r_bottom otherRect \<and>
             r_bottom movingRect > r_top otherRect
          then
            let dxLeft = r_right otherRect - r_left movingRect;
                dxRight = r_right movingRect - r_left otherRect;
                dyTop = r_bottom otherRect - r_top movingRect;
                dyBottom = r_bottom movingRect - r_top otherRect;
                minDisplacement = min (min (min \<bar>dxLeft\<bar> \<bar>dxRight\<bar>) \<bar>dyTop\<bar>) \<bar>dyBottom\<bar>
            in
              if minDisplacement = \<bar>dxLeft\<bar> then
                (r_right otherRect / scale st + gridSpacing st * scale st, snd adj)
              else if minDisplacement = \<bar>dxRight\<bar> then
                ((r_left otherRect - baseWidth mc) / scale st - gridSpacing st * scale st, snd adj)
              else if minDisplacement = \<bar>dyTop\<bar> then
                (fst adj, r_bottom otherRect / scale st + gridSpacing st * scale st)
              else if minDisplacement = \<bar>dyBottom\<bar> then
                (fst adj, (r_top otherRect - baseHeight mc) / scale st - gridSpacing st * scale st)
              else adj
          else adj)"

definition preventOverlap :: "state \<Rightarrow> ref \<Rightarrow> real \<Rightarrow> real \<Rightarrow> real \<times> real" where
  "preventOverlap st movingCard proposedX proposedY =
     (let mc = store st ! movingCard;
          movingRect = \<lparr>r_left = proposedX * scale st,
                        r_top = proposedY * scale st,
                        r_right = (proposedX + baseWidth mc) * scale st,
                        r_bottom = (proposedY + baseHeight mc) * scale st\<rparr>;
          adj = fold (overlapStep st movingCard movingRect) (cards st) (proposedX, proposedY)
      in (snapToGrid st (fst adj), snapToGrid st (snd adj)))"

definition preventOverlapsAfterZoom :: "state \<Rightarrow> state" where
  "preventOverlapsAfterZoom st =
     fold (\<lambda>r s. let adjustedPosition = preventOverlap s r (baseX (store s ! r)) (baseY (store s ! r))
                  in updCard r (\<lambda>c. c\<lparr>baseX := fst adjustedPosition,
                                          baseY := snd adjustedPosition\<rparr>) s)
          (cards st) st"

definition zoom :: "real \<Rightarrow> state \<Rightarrow> state" where
  "zoom delta st =
     (let newScale = scale st * delta
      in if newScale \<ge> 0.5 \<and> newScale \<le> 2 then
           preventOverlapsAfterZoom
             (fold (\<lambda>r s. updCard r (\<lambda>c. c\<lparr>baseX := baseX c * delta,
                                              baseY := baseY c * delta,
                                              baseWidth := baseWidth c * delta,
                                              baseHeight := baseHeight c * delta\<rparr>) s)
                   (cards st) (st\<lparr>scale := newScale\<rparr>))
         else st)"

subsection \<open>Selection\<close>

definition selectCard :: "ref \<Rightarrow> state \<Rightarrow> state" where
  "selectCard crd st =
     (if connectingFrom st = None \<or> connectingFrom st \<noteq> Some crd then
        (if crd \<notin> set (selectedCards st)
         then st\<lparr>selectedCards := selectedCards st @ [crd]\<rparr>
         else st)
      else st)"

definition clearSelection :: "state \<Rightarrow> state" where
  "clearSelection st =
     st\<lparr>selectedCards := filter (\<lambda>crd. connectingFrom st = Some crd) (selectedCards st)\<rparr>"

subsection \<open>Pointer-down on a card: resize zones, drag and resize gestures\<close>

definition getCardRect :: "state \<Rightarrow> mouseEvent \<Rightarrow> ref \<Rightarrow> domRect" where
  "getCardRect st event crd =
     (case elementRect event of
        Some el \<Rightarrow> el
      | None \<Rightarrow> (let c = store st ! crd
                 in \<lparr>rx = baseX c * scale st, ry = baseY c * scale st,
                     rwidth = baseWidth c * scale st, rheight = baseHeight c * scale st\<rparr>))"

definition getResizeDirection :: "state \<Rightarrow> ref \<Rightarrow> mouseEvent \<Rightarrow> direction option" where
  "getResizeDirection st crd event =
     (let rect = getCardRect st event crd;
          edgeSize = borderWidth * scale st;
          x = clientX event - rect_left rect;
          y = clientY event - rect_top rect;
          leftEdge = - edgeSize;
          rightEdge = rwidth rect + edgeSize;
          topEdge = - edgeSize;
          bottomEdge = rheight rect + edgeSize
      in
        if y \<ge> topEdge \<and> y \<le> edgeSize \<and> x > edgeSize \<and> x < rwidth rect - edgeSize
          then Some Top
        else if y \<ge> rheight rect - edgeSize \<and> y \<le> bottomEdge \<and> x > edgeSize \<and>
                x < rwidth rect - edgeSize
          then Some Bottom
        else if x \<ge> leftEdge \<and> x \<le> edgeSize \<and> y > edgeSize \<and> y < rheight rect - edgeSize
          then Some Left
        else if x \<ge> rwidth rect - edgeSize \<and> x \<le> rightEdge \<and> y > edgeSize \<and>
                y < rheight rect - edgeSize
          then Some Right
        else if x \<ge> leftEdge \<and> x \<le> edgeSize \<and> y \<ge> topEdge \<and> y \<le> edgeSize
          then Some TopLeft
        else if x \<ge> rwidth rect - edgeSize \<and> x \<le> rightEdge \<and> y \<ge> topEdge \<and> y \<le> edgeSize
          then Some TopRight
        else if x \<ge> leftEdge \<and> x \<le> edgeSize \<and> y \<ge> rheight rect - edgeSize \<and> y \<le> bottomEdge
          then Some BottomLeft
        else if x \<ge> rwidth rect - edgeSize \<and> x \<le> rightEdge \<and> y \<ge> rheight rect - edgeSize \<and>
                y \<le> bottomEdge
          then Some BottomRight
        else None)"

definition isResizingEdge :: "state \<Rightarrow> ref \<Rightarrow> mouseEvent \<Rightarrow> bool" where
  "isResizingEdge st crd event =
     (let rect = getCardRect st event crd;
          edgeSize = borderWidth * scale st;
          x = clientX event - rect_left rect;
          y = clientY event - rect_top rect;
          leftEdge = - edgeSize;
          rightEdge = rwidth rect + edgeSize;
          topEdge = - edgeSize;
          bottomEdge = rheight rect + edgeSize
      in
        (y \<ge> topEdge \<and> y \<le> edgeSize \<and> x > edgeSize \<and> x < rwidth rect - edgeSize) \<or>
        (y \<ge> rheight rect - edgeSize \<and> y \<le> bottomEdge \<and> x > edgeSize \<and>
           x < rwidth rect - edgeSize) \<or>
        (x \<ge> leftEdge \<and> x \<le> edgeSize \<and> y > edgeSize \<and> y < rheight rect - edgeSize) \<or>
        (x \<ge> rwidth rect - edgeSize \<and> x \<le> rightEdge \<and> y > edgeSize \<and>
           y < rheight rect - edgeSize) \<or>
        (x \<ge> leftEdge \<and> x \<le> edgeSize \<and> y \<ge> topEdge \<and> y \<le> edgeSize) \<or>
        (x \<ge> rwidth rect - edgeSize \<and> x \<le> rightEdge \<and> y \<ge> topEdge \<and> y \<le> edgeSize) \<or>
        (x \<ge> leftEdge \<and> x \<le> edgeSize \<and> y \<ge> rheight rect - edgeSize \<and> y \<le> bottomEdge) \<or>
        (x \<ge> rwidth rect - edgeSize \<and> x \<le> rightEdge \<and> y \<ge> rheight rect - edgeSize \<and>
           y \<le> bottomEdge))"

text \<open>\<open>handleDrag\<close> records one pointer offset per selected card and registers its listeners.\<close>

definition handleDrag :: "mouseEvent \<Rightarrow> ref \<Rightarrow> state \<Rightarrow> gesture" where
  "handleDrag event crd st =
     Drag (map (\<lambda>selectedCard.
                  \<lparr>off_card = selectedCard,
                   offsetX = clientX event - baseX (store st ! selectedCard) * scale st,
                   offsetY = clientY event - baseY (store st ! selectedCard) * scale st\<rparr>)
               (selectedCards st))"

text \<open>The \<open>onMouseMove\<close> closure of \<open>handleDrag\<close>: one move sample.\<close>

definition dragMove :: "dragOffset list \<Rightarrow> mouseEvent \<Rightarrow> state \<Rightarrow> state" where
  "dragMove offsets e st =
     fold (\<lambda>off s.
             let newX = (clientX e - offsetX off) / scale s;
                 newY = (clientY e - offsetY off) / scale s;
                 adjustedPosition = preventOverlap s (off_card off) newX newY
             in updCard (off_card off) (\<lambda>c. c\<lparr>baseX := fst adjustedPosition,
                                                  baseY := snd adjustedPosition\<rparr>) s)
          offsets st"

text \<open>The \<open>onMouseUp\<close> closure of \<open>handleDrag\<close>: the commit.\<close>

definition dragUp :: "state \<Rightarrow> state" where
  "dragUp st =
     fold (\<lambda>selectedCard s.
             updCard selectedCard (\<lambda>c. c\<lparr>baseX := snapToGrid s (baseX c),
                                             baseY := snapToGrid s (baseY c)\<rparr>) s)
          (selectedCards st) st"

definition handleResize :: "mouseEvent \<Rightarrow> ref \<Rightarrow> state \<Rightarrow> gesture" where
  "handleResize event crd st =
     (case getResizeDirection st crd event of
        None \<Rightarrow> NoGesture
      | Some d \<Rightarrow>
          Resize \<lparr>res_card = crd, res_direction = d,
                  startX = clientX event, startY = clientY event,
                  initialWidth = baseWidth (store st ! crd),
                  initialHeight = baseHeight (store st ! crd),
                  initialX = baseX (store st ! crd),
                  initialY = baseY (store st ! crd)\<rparr>)"

text \<open>The clamp-then-snap of one dimension in the resize switch.\<close>

definition resizeWidth :: "state \<Rightarrow> real \<Rightarrow> real" where
  "resizeWidth st raw = snapToGrid st (max (100 / scale st) raw * scale st) / scale st"

definition resizeHeight :: "state \<Rightarrow> real \<Rightarrow> real" where
  "resizeHeight st raw = snapToGrid st (max (50 / scale st) raw * scale st) / scale st"

text \<open>The \<open>onMouseMove\<close> closure of \<open>handleResize\<close>: one move sample.\<close>

definition resizeMove :: "resizeStart \<Rightarrow> mouseEvent \<Rightarrow> state \<Rightarrow> state" where
  "resizeMove g e st =
     (let deltaX = (clientX e - startX g) / scale st;
          deltaY = (clientY e - startY g) / scale st;
          wMinus = resizeWidth st (initialWidth g - deltaX);
          wPlus = resizeWidth st (initialWidth g + deltaX);
          hMinus = resizeHeight st (initialHeight g - deltaY);
          hPlus = resizeHeight st (initialHeight g + deltaY);
          (newWidth, newHeight, newX, newY) =
            (case res_direction g of
               Top \<Rightarrow> (initialWidth g, hMinus, initialX g,
                        initialY g + (initialHeight g - hMinus))
             | Bottom \<Rightarrow> (initialWidth g, hPlus, initialX g, initialY g)
             | Left \<Rightarrow> (wMinus, initialHeight g,
                         initialX g + (initialWidth g - wMinus), initialY g)
             | Right \<Rightarrow> (wPlus, initialHeight g, initialX g, initialY g)
             | TopLeft \<Rightarrow> (wMinus, hMinus,
                            initialX g + (initialWidth g - wMinus),
                            initialY g + (initialHeight g - hMinus))
             | TopRight \<Rightarrow> (wPlus, hMinus, initialX g,
                             initialY g + (initialHeight g - hMinus))
             | BottomLeft \<Rightarrow> (wMinus, hPlus,
                               initialX g + (initialWidth g - wMinus), initialY g)
             | BottomRight \<Rightarrow> (wPlus, hPlus, initialX g, initialY g))
      in updCard (res_card g) (\<lambda>c. c\<lparr>baseWidth := newWidth, baseHeight := newHeight,
                                         baseX := newX, baseY := newY\<rparr>) st)"

definition onCardMouseDown :: "mouseEvent \<Rightarrow> ref \<Rightarrow> state \<Rightarrow> state \<times> gesture" where
  "onCardMouseDown event crd st =
     (if targetIsInput event then (st, NoGesture)
      else if \<not> altKey event then
        (if isResizingEdge st crd event then (st, handleResize event crd st)
         else
           let st1 =
                 (if ctrlKey event \<or> shiftKey event then
                    (if crd \<in> set (selectedCards st)
                     then st\<lparr>selectedCards := filter (\<lambda>c. c \<noteq> crd) (selectedCards st)\<rparr>
                     else selectCard crd st)
                  else
                    (if crd \<notin> set (selectedCards st)
                     then selectCard crd (clearSelection st)
                     else st))
           in if crd \<in> set (selectedCards st1)
              then (st1, handleDrag event crd st1)
              else (st1, NoGesture))
      else (st, NoGesture))"

subsection \<open>Connect-toggle\<close>

text \<open>\<open>findIndex\<close>: the first index whose element satisfies the predicate, if any.\<close>

fun findIndex :: "('a \<Rightarrow> bool) \<Rightarrow> 'a list \<Rightarrow> nat option" where
  "findIndex P [] = None"
| "findIndex P (x # xs) =
     (if P x then Some 0 else map_option Suc (findIndex P xs))"

text \<open>\<open>xs.splice(i, 1)\<close>: remove the element at index \<open>i\<close>.\<close>

definition splice1 :: "nat \<Rightarrow> 'a list \<Rightarrow> 'a list" where
  "splice1 i xs = take i xs @ drop (Suc i) xs"

definition onCardClick :: "mouseEvent \<Rightarrow> ref \<Rightarrow> state \<Rightarrow> state" where
  "onCardClick event crd st =
     (if altKey event \<and> \<not> targetIsInput event then
        (case connectingFrom st of
           None \<Rightarrow> st\<lparr>connectingFrom := Some crd\<rparr>
         | Some cf \<Rightarrow>
             if cf = crd then st\<lparr>connectingFrom := None\<rparr>
             else
               (case findIndex (\<lambda>c. (from_c c = cf \<and> to_c c = crd) \<or>
                                     (from_c c = crd \<and> to_c c = cf)) (connectors st) of
                  Some existingConnectorIndex \<Rightarrow>
                    st\<lparr>connectors := splice1 existingConnectorIndex (connectors st),
                       connectingFrom := None\<rparr>
                | None \<Rightarrow>
                    st\<lparr>connectors := connectors st @ [\<lparr>from_c = cf, to_c = crd\<rparr>],
                       connectingFrom := None\<rparr>))
      else st)"

subsection \<open>Clipboard\<close>

definition copyCards :: "state \<Rightarrow> state" where
  "copyCards st =
     (if length (selectedCards st) = 0 then st
      else st\<lparr>clipboard :=
        map (\<lambda>crd.
               \<lparr>item_baseX = baseX (store st ! crd) / scale st,
                item_baseY = baseY (store st ! crd) / scale st,
                item_baseWidth = baseWidth (store st ! crd) / scale st,
                item_baseHeight = baseHeight (store st ! crd) / scale st,
                item_title = title (store st ! crd),
                item_inputValue = inputValue (store st ! crd),
                connections =
                  map (\<lambda>c. \<lparr>fromId = id_str (store st ! from_c c),
                             toId = id_str (store st ! to_c c)\<rparr>)
                      (filter (\<lambda>c. from_c c = crd \<or> to_c c = crd) (connectors st))\<rparr>)
            (selectedCards st)\<rparr>)"

text \<open>The body of the first \<open>forEach\<close> of \<open>pasteCards\<close>; the map is keyed by title.\<close>

definition pasteItem ::
  "clipItem \<Rightarrow> state \<times> (string \<rightharpoonup> ref) \<Rightarrow> state \<times> (string \<rightharpoonup> ref)" where
  "pasteItem item acc =
     (let st = fst acc;
          newCardsMap = snd acc;
          offsetX = 20 / scale st;
          offsetY = 20 / scale st;
          n = cardCount st + 1;
          newCard = \<lparr>id_str = ''card'' @ string_of_nat n,
                     title = item_title item,
                     inputValue = item_inputValue item,
                     baseX = (item_baseX item + offsetX) * scale st,
                     baseY = (item_baseY item + offsetY) * scale st,
                     baseWidth = item_baseWidth item * scale st,
                     baseHeight = item_baseHeight item * scale st\<rparr>;
          r = length (store st)
      in (selectCard r (st\<lparr>cardCount := n,
                            store := store st @ [newCard],
                            cards := cards st @ [r]\<rparr>),
          newCardsMap(item_title item \<mapsto> r)))"

text \<open>The body of the inner \<open>forEach\<close> of the second loop of \<open>pasteCards\<close>.\<close>

definition pasteConn :: "(string \<rightharpoonup> ref) \<Rightarrow> clipConn \<Rightarrow> state \<Rightarrow> state" where
  "pasteConn newCardsMap conn st =
     (case newCardsMap (replace_first ''card'' ''Card '' (fromId conn)) of
        None \<Rightarrow> st
      | Some fromCrd \<Rightarrow>
          (case newCardsMap (replace_first ''card'' ''Card '' (toId conn)) of
             None \<Rightarrow> st
           | Some toCrd \<Rightarrow>
               if fromCrd \<noteq> toCrd
               then st\<lparr>connectors := connectors st @ [\<lparr>from_c = fromCrd, to_c = toCrd\<rparr>]\<rparr>
               else st))"

definition preventOverlapsAfterPaste :: "state \<Rightarrow> state" where
  "preventOverlapsAfterPaste st =
     fold (\<lambda>r s. let proposedX = baseX (store s ! r) / scale s;
                      proposedY = baseY (store s ! r) / scale s;
                      adjustedPosition = preventOverlap s r proposedX proposedY
                  in updCard r (\<lambda>c. c\<lparr>baseX := fst adjustedPosition * scale s,
                                          baseY := snd adjustedPosition * scale s\<rparr>) s)
          (cards st) st"

definition pasteCards :: "state \<Rightarrow> state" where
  "pasteCards st =
     (if length (clipboard st) = 0 then st
      else
        let created = fold pasteItem (clipboard st) (clearSelection st, Map.empty);
            newCardsMap = snd created;
            wired = fold (\<lambda>item s. fold (pasteConn newCardsMap) (connections item) s)
                         (clipboard st) (fst created)
        in preventOverlapsAfterPaste wired)"

subsection \<open>Deletion\<close>

text \<open>
  \<open>confirmed\<close> is the answer of the blocking \<open>confirm\<close> prompt; with an empty selection the
  prompt is not shown and only a notice is raised.
\<close>

definition deleteSelectedCards :: "bool \<Rightarrow> state \<Rightarrow> state" where
  "deleteSelectedCards confirmed st =
     (if length (selectedCards st) = 0 then st
      else if confirmed then
        st\<lparr>cards := filter (\<lambda>crd. crd \<notin> set (selectedCards st)) (cards st),
           connectors := filter (\<lambda>conn. from_c conn \<notin> set (selectedCards st) \<and>
                                          to_c conn \<notin> set (selectedCards st)) (connectors st),
           connectingFrom :=
             (case connectingFrom st of
                None \<Rightarrow> None
              | Some cf \<Rightarrow> if cf \<in> set (selectedCards st) then None else Some cf),
           selectedCards := []\<rparr>
      else st)"

section \<open>Properties\<close>

subsection \<open>Grid vocabulary and invariants\<close>

definition gridUnit :: "state \<Rightarrow> real" where
  "gridUnit st = gridSpacing st * scale st"

text \<open>A value lies on the grid when snapping leaves it where it is.\<close>

definition onGrid :: "state \<Rightarrow> real \<Rightarrow> bool" where
  "onGrid st v = (snapToGrid st v = v)"

subsection \<open>Example events and canvases\<close>

definition altClickEvent :: mouseEvent where
  "altClickEvent = \<lparr>altKey = True, ctrlKey = False, shiftKey = False,
     clientX = 200, clientY = 150, targetIsInput = False, elementRect = None\<rparr>"

definition pointerDownAt :: "real \<Rightarrow> real \<Rightarrow> mouseEvent" where
  "pointerDownAt x y = \<lparr>altKey = False, ctrlKey = False, shiftKey = False,
     clientX = x, clientY = y, targetIsInput = False, elementRect = None\<rparr>"

definition ctrlDownAt :: "real \<Rightarrow> real \<Rightarrow> mouseEvent" where
  "ctrlDownAt x y = \<lparr>altKey = False, ctrlKey = True, shiftKey = False,
     clientX = x, clientY = y, targetIsInput = False, elementRect = None\<rparr>"

text \<open>The canvas right after start-up, as a computation and written out.\<close>

definition twoCards :: state where
  "twoCards = ngAfterViewInit initialState"

definition twoCardsLit :: state where
  "twoCardsLit = \<lparr>scale = 1, cardCount = 2,
    store =
      [\<lparr>id_str = ''card1'', title = ''Card 1'', inputValue = [],
          baseX = 100, baseY = 100, baseWidth = 200, baseHeight = 100\<rparr>,
       \<lparr>id_str = ''card2'', title = ''Card 2'', inputValue = [],
          baseX = 400, baseY = 200, baseWidth = 200, baseHeight = 100\<rparr>],
    cards = [0, 1], connectors = [], connectingFrom = None,
    selectedCards = [], clipboard = [], gridSpacing = 50\<rparr>"

text \<open>The two start-up cards connected, the first one selected and pending a connection.\<close>

definition connectedSelected :: state where
  "connectedSelected = twoCardsLit\<lparr>connectors := [\<lparr>from_c = 0, to_c = 1\<rparr>],
     connectingFrom := Some 0, selectedCards := [0]\<rparr>"

text \<open>Start-up followed by one Alt-click on the first card.\<close>

definition pendingConnect :: state where
  "pendingConnect = onCardClick altClickEvent 0 (ngAfterViewInit initialState)"

subsection \<open>Click sequences\<close>

text \<open>A pointer pressed on a card and released without moving: the drag commits at once.\<close>

definition pressRelease :: "mouseEvent \<Rightarrow> ref \<Rightarrow> state \<Rightarrow> state" where
  "pressRelease event crd st =
     (case onCardMouseDown event crd st of
        (st1, Drag offsets) \<Rightarrow> dragUp st1
      | (st1, _) \<Rightarrow> st1)"

text \<open>An Alt-click on a card: pointer-down with Alt held, then the click.\<close>

definition altClickOn :: "ref \<Rightarrow> state \<Rightarrow> state" where
  "altClickOn crd st = onCardClick altClickEvent crd (fst (onCardMouseDown altClickEvent crd st))"

text \<open>The connect-toggle for a pair: Alt-click the first card, then the second.\<close>

definition connectToggle :: "ref \<Rightarrow> ref \<Rightarrow> state \<Rightarrow> state" where
  "connectToggle a b st = altClickOn b (altClickOn a st)"

text \<open>Start-up, then the two cards connected.\<close>

definition connectedPair :: state where
  "connectedPair = connectToggle 0 1 (ngAfterViewInit initialState)"

text \<open>Then both cards selected: a plain click on the first, a Ctrl-click on the second.\<close>

definition bothSelected :: state where
  "bothSelected =
     pressRelease (ctrlDownAt 500 250) 1 (pressRelease (pointerDownAt 200 150) 0 connectedPair)"

definition pastedPair :: state where
  "pastedPair = pasteCards (copyCards bothSelected)"

text \<open>
  From the connected pair: the second card alone copied and pasted, then the first card
  and that copy selected together.
\<close>

definition copyOfSecond :: state where
  "copyOfSecond = pasteCards (copyCards (pressRelease (pointerDownAt 500 250) 1 connectedPair))"

definition mixedSelection :: state where
  "mixedSelection =
     pressRelease (ctrlDownAt 500 400) 2 (pressRelease (pointerDownAt 200 150) 0 copyOfSecond)"

subsection \<open>Rectangles of cards\<close>




subsection \<open>Well-formed canvases and the invariants of the specification\<close>

text \<open>Every listed card is an object of the store.\<close>

definition refsValid :: "state \<Rightarrow> bool" where
  "refsValid st = (\<forall>r \<in> set (cards st). r < length (store st))"


definition cardOnGrid :: "state \<Rightarrow> card \<Rightarrow> bool" where
  "cardOnGrid st c =
     (onGrid st (baseX c) \<and> onGrid st (baseY c) \<and>
      onGrid st (baseWidth c) \<and> onGrid st (baseHeight c))"

text \<open>The grid alignment of the specification, on the four stored fields.\<close>

definition gridAligned :: "state \<Rightarrow> bool" where
  "gridAligned st = (\<forall>r \<in> set (cards st). cardOnGrid st (store st ! r))"

definition positionsOnGrid :: "state \<Rightarrow> bool" where
  "positionsOnGrid st =
     (\<forall>r \<in> set (cards st). onGrid st (baseX (store st ! r)) \<and> onGrid st (baseY (store st ! r)))"


text \<open>The guard of \<open>zoom\<close>.\<close>

definition zoomAccepted :: "real \<Rightarrow> state \<Rightarrow> bool" where
  "zoomAccepted delta st = (scale st * delta \<ge> 0.5 \<and> scale st * delta \<le> 2)"


text \<open>The rescaling that \<open>zoom\<close> applies to each card.\<close>

definition scaleCard :: "real \<Rightarrow> card \<Rightarrow> card" where
  "scaleCard delta c = c\<lparr>baseX := baseX c * delta, baseY := baseY c * delta,
     baseWidth := baseWidth c * delta, baseHeight := baseHeight c * delta\<rparr>"

text \<open>The card object that \<open>pasteCards\<close> builds from a clipboard entry.\<close>

definition pastedCard :: "state \<Rightarrow> clipItem \<Rightarrow> card" where
  "pastedCard st item =
     \<lparr>id_str = ''card'' @ string_of_nat (cardCount st + 1),
      title = item_title item,
      inputValue = item_inputValue item,
      baseX = (item_baseX item + 20 / scale st) * scale st,
      baseY = (item_baseY item + 20 / scale st) * scale st,
      baseWidth = item_baseWidth item * scale st,
      baseHeight = item_baseHeight item * scale st\<rparr>"

text \<open>A pointer pressed on a resize band of a card, followed by one move sample.\<close>

definition resizeBy :: "mouseEvent \<Rightarrow> mouseEvent \<Rightarrow> ref \<Rightarrow> state \<Rightarrow> state" where
  "resizeBy down move crd st =
     (case onCardMouseDown down crd st of
        (st1, Resize g) \<Rightarrow> resizeMove g move st1
      | (st1, _) \<Rightarrow> st1)"

text \<open>Start-up, then the grid spacing set to 30.\<close>

definition gridThirty :: state where
  "gridThirty = setGridSpacing 30 (ngAfterViewInit initialState)"


text \<open>Start-up, then one zoom step in.\<close>

definition zoomedTwo :: state where
  "zoomedTwo = zoom (11 / 10) (ngAfterViewInit initialState)"

text \<open>The resize gesture that grabbing the first start-up card's bottom-right corner starts.\<close>

definition cornerGrab :: resizeStart where
  "cornerGrab = \<lparr>res_card = 0, res_direction = BottomRight, startX = 300, startY = 200,
     initialWidth = 200, initialHeight = 100, initialX = 100, initialY = 100\<rparr>"

text \<open>Start-up, the grid spacing set to 30, then one click on the add button.\<close>

definition gridThirtyAdded :: state where
  "gridThirtyAdded = addNewCard None None gridThirty"

text \<open>
  A connector joins two cards in either direction (the test of the connect-toggle), and
  the unordered pairs that a canvas connects.
\<close>

definition joins :: "ref \<Rightarrow> ref \<Rightarrow> connector \<Rightarrow> bool" where
  "joins a b c = ((from_c c = a \<and> to_c c = b) \<or> (from_c c = b \<and> to_c c = a))"

definition connectorPairs :: "state \<Rightarrow> ref set set" where
  "connectorPairs st = (\<lambda>c. {from_c c, to_c c}) ` set (connectors st)"

text \<open>
  Two cards brought to one and the same rectangle by resizing, on a grid of 30: after
  start-up the grid spacing is set to 30, both cards are selected and deleted, two cards
  are added, and their edges are dragged until both occupy (230, 220) with size 180 by 90.
\<close>

definition twoAddedOnThirty :: state where
  "twoAddedOnThirty =
     addNewCard None None (addNewCard None None
       (deleteSelectedCards True
         (pressRelease (ctrlDownAt 500 250) 1 (pressRelease (pointerDownAt 200 130) 0 gridThirty))))"

definition firstTwin :: state where
  "firstTwin =
     resizeBy (pointerDownAt 320 210) (pointerDownAt 320 220) 2
       (resizeBy (pointerDownAt 210 260) (pointerDownAt 230 260) 2 twoAddedOnThirty)"


text \<open>
  The four overlap depths that \<open>preventOverlap\<close> compares, under the names of its local
  constants.
\<close>

definition dxLeft :: "rect \<Rightarrow> rect \<Rightarrow> real" where
  "dxLeft movingRect otherRect = r_right otherRect - r_left movingRect"

definition dxRight :: "rect \<Rightarrow> rect \<Rightarrow> real" where
  "dxRight movingRect otherRect = r_right movingRect - r_left otherRect"

definition dyTop :: "rect \<Rightarrow> rect \<Rightarrow> real" where
  "dyTop movingRect otherRect = r_bottom otherRect - r_top movingRect"

definition dyBottom :: "rect \<Rightarrow> rect \<Rightarrow> real" where
  "dyBottom movingRect otherRect = r_bottom movingRect - r_top otherRect"

text \<open>The directions of a resize gesture that change the width, and those that change the height.\<close>

definition movesWidth :: "direction \<Rightarrow> bool" where
  "movesWidth d = (d = Left \<or> d = Right \<or> d = TopLeft \<or> d = TopRight \<or>
     d = BottomLeft \<or> d = BottomRight)"

definition movesHeight :: "direction \<Rightarrow> bool" where
  "movesHeight d = (d = Top \<or> d = Bottom \<or> d = TopLeft \<or> d = TopRight \<or>
     d = BottomLeft \<or> d = BottomRight)"

text \<open>
  On the grid of 30, the card at (230, 220) of size 180 by 90 pressed in its interior, so
  that it is the selection; then copied; and the gesture that grabbing its right edge
  starts.
\<close>

definition twinPressed :: state where
  "twinPressed = fst (onCardMouseDown (pointerDownAt 300 260) 2 firstTwin)"

definition twinCopied :: state where
  "twinCopied = copyCards twinPressed"

definition rightEdgeGrab :: resizeStart where
  "rightEdgeGrab = \<lparr>res_card = 2, res_direction = Right, startX = 408, startY = 260,
     initialWidth = 180, initialHeight = 90, initialX = 230, initialY = 220\<rparr>"








subsection \<open>Evaluating the start-up canvas\<close>

lemma twoCards_eval: "twoCards = twoCardsLit"
  by (simp add: twoCards_def twoCardsLit_def ngAfterViewInit_def initialState_def addNewCard_def
      snapToGrid_def math_round_def string_of_nat.simps)

subsection \<open>Deletion cascades to connectors\<close>

text \<open>
  C6. When the selection is not empty and the prompt is confirmed, \<open>deleteSelectedCards\<close>
  keeps exactly the connectors with no selected endpoint, so every connector that has a
  deleted card as \<open>from\<close> or \<open>to\<close> is gone; the selection becomes empty;
  \<open>connectingFrom\<close> is reset to null exactly when it referred to a deleted card; the card
  list loses the selected cards and no other card; no card object is modified.
\<close>

theorem deleteSelectedCards_cascade:
  assumes "selectedCards st \<noteq> []"
  shows "connectors (deleteSelectedCards True st) =
           filter (\<lambda>c. from_c c \<notin> set (selectedCards st) \<and> to_c c \<notin> set (selectedCards st))
                  (connectors st) \<and>
         (\<forall>c \<in> set (connectors (deleteSelectedCards True st)).
            from_c c \<notin> set (selectedCards st) \<and> to_c c \<notin> set (selectedCards st)) \<and>
         selectedCards (deleteSelectedCards True st) = [] \<and>
         connectingFrom (deleteSelectedCards True st) =
           (case connectingFrom st of None \<Rightarrow> None
            | Some cf \<Rightarrow> if cf \<in> set (selectedCards st) then None else Some cf) \<and>
         cards (deleteSelectedCards True st) =
           filter (\<lambda>r. r \<notin> set (selectedCards st)) (cards st) \<and>
         (\<forall>r \<in> set (cards st). r \<notin> set (selectedCards st) \<longrightarrow>
            r \<in> set (cards (deleteSelectedCards True st))) \<and>
         store (deleteSelectedCards True st) = store st"
  using assms by (simp add: deleteSelectedCards_def)

theorem deleteSelectedCards_cascade_witness:
  "selectedCards connectedSelected \<noteq> [] \<and>
   connectors (deleteSelectedCards True connectedSelected) = [] \<and>
   selectedCards (deleteSelectedCards True connectedSelected) = [] \<and>
   connectingFrom (deleteSelectedCards True connectedSelected) = None \<and>
   cards (deleteSelectedCards True connectedSelected) = [1] \<and>
   store (deleteSelectedCards True connectedSelected) = store connectedSelected"
  using deleteSelectedCards_cascade [of connectedSelected]
  by (simp add: connectedSelected_def twoCardsLit_def)

subsection \<open>Exclusive selection on a plain pointer-down\<close>

text \<open>
  C8, as claimed, fails: after start-up and one Alt-click on the first card (which makes it
  the pending connection source), a plain pointer-down on the interior of that same,
  unselected card leaves the selection empty, because \<open>selectCard\<close> refuses the pending
  connection source.
\<close>

theorem onCardMouseDown_exclusive_counterexample:
  "\<not> targetIsInput (pointerDownAt 200 150) \<and> \<not> altKey (pointerDownAt 200 150) \<and>
   \<not> ctrlKey (pointerDownAt 200 150) \<and> \<not> shiftKey (pointerDownAt 200 150) \<and>
   \<not> isResizingEdge pendingConnect 0 (pointerDownAt 200 150) \<and>
   0 \<in> set (cards pendingConnect) \<and>
   0 \<notin> set (selectedCards pendingConnect) \<and>
   selectedCards (fst (onCardMouseDown (pointerDownAt 200 150) 0 pendingConnect)) \<noteq> [0]"
  by (simp add: pendingConnect_def onCardClick_def altClickEvent_def pointerDownAt_def
      twoCards_eval [unfolded twoCards_def] twoCardsLit_def onCardMouseDown_def
      isResizingEdge_def getCardRect_def rect_left_def rect_top_def borderWidth_def
      selectCard_def clearSelection_def)

text \<open>
  C8, amended. A pointer-down without Alt, Ctrl or Shift, on the body of a card (not its
  text field, not a resize band) that is not selected, leaves exactly that card selected,
  provided the pending connection source, if any, is neither that card nor a selected card.
  If the pending connection source is the pressed card itself, the selection ends empty
  and no drag starts. If it is another card, and that card is selected, it stays selected
  and the pressed card is added behind it: the selection ends as exactly these two cards.
\<close>

theorem onCardMouseDown_exclusive:
  assumes "\<not> targetIsInput event" and "\<not> altKey event"
    and "\<not> ctrlKey event" and "\<not> shiftKey event"
    and "\<not> isResizingEdge st crd event"
    and "crd \<notin> set (selectedCards st)"
  shows "((\<forall>cf. connectingFrom st = Some cf \<longrightarrow> cf \<noteq> crd \<and> cf \<notin> set (selectedCards st)) \<longrightarrow>
            selectedCards (fst (onCardMouseDown event crd st)) = [crd]) \<and>
         (connectingFrom st = Some crd \<longrightarrow>
            selectedCards (fst (onCardMouseDown event crd st)) = [] \<and>
            snd (onCardMouseDown event crd st) = NoGesture) \<and>
         (\<forall>cf. connectingFrom st = Some cf \<and> cf \<noteq> crd \<and> cf \<in> set (selectedCards st) \<longrightarrow>
            selectedCards (fst (onCardMouseDown event crd st)) =
              filter (\<lambda>c. c = cf) (selectedCards st) @ [crd] \<and>
            set (selectedCards (fst (onCardMouseDown event crd st))) = {cf, crd})"
proof -
  let ?res = "selectedCards (fst (onCardMouseDown event crd st))"
  have down: "onCardMouseDown event crd st =
      (if crd \<in> set (selectedCards (selectCard crd (clearSelection st)))
       then (selectCard crd (clearSelection st),
             handleDrag event crd (selectCard crd (clearSelection st)))
       else (selectCard crd (clearSelection st), NoGesture))"
    using assms by (simp add: onCardMouseDown_def Let_def)
  then have res: "?res = selectedCards (selectCard crd (clearSelection st))"
    by simp
  have 1: "?res = [crd]"
    if "\<forall>cf. connectingFrom st = Some cf \<longrightarrow> cf \<noteq> crd \<and> cf \<notin> set (selectedCards st)"
  proof -
    have "selectedCards (clearSelection st) = []"
      using that by (auto simp: clearSelection_def filter_empty_conv)
    then show ?thesis
      using that res by (auto simp: selectCard_def clearSelection_def)
  qed
  have 2: "?res = [] \<and> snd (onCardMouseDown event crd st) = NoGesture"
    if "connectingFrom st = Some crd"
  proof -
    have "selectedCards (selectCard crd (clearSelection st)) = []"
      using that assms(6) by (auto simp: selectCard_def clearSelection_def filter_empty_conv)
    then show ?thesis
      using down by simp
  qed
  have 3: "?res = filter (\<lambda>c. c = cf) (selectedCards st) @ [crd] \<and> set ?res = {cf, crd}"
    if "connectingFrom st = Some cf \<and> cf \<noteq> crd \<and> cf \<in> set (selectedCards st)" for cf
  proof -
    have c: "selectedCards (clearSelection st) = filter (\<lambda>c. c = cf) (selectedCards st)"
      using that by (auto simp: clearSelection_def intro: filter_cong)
    have "?res = filter (\<lambda>c. c = cf) (selectedCards st) @ [crd]"
      using that c res by (auto simp: selectCard_def clearSelection_def)
    moreover have "set (filter (\<lambda>c. c = cf) (selectedCards st)) = {cf}"
      using that by auto
    ultimately show ?thesis by auto
  qed
  show ?thesis
    using 1 2 3 by blast
qed

theorem onCardMouseDown_exclusive_witness:
  "\<not> targetIsInput (pointerDownAt 200 150) \<and> \<not> altKey (pointerDownAt 200 150) \<and>
   \<not> ctrlKey (pointerDownAt 200 150) \<and> \<not> shiftKey (pointerDownAt 200 150) \<and>
   \<not> isResizingEdge twoCardsLit 0 (pointerDownAt 200 150) \<and>
   0 \<notin> set (selectedCards twoCardsLit) \<and>
   connectingFrom twoCardsLit = None \<and>
   selectedCards (fst (onCardMouseDown (pointerDownAt 200 150) 0 twoCardsLit)) = [0] \<and>
   \<not> isResizingEdge pendingConnect 0 (pointerDownAt 200 150) \<and>
   0 \<notin> set (selectedCards pendingConnect) \<and>
   connectingFrom pendingConnect = Some 0 \<and>
   selectedCards (fst (onCardMouseDown (pointerDownAt 200 150) 0 pendingConnect)) = [] \<and>
   \<not> isResizingEdge connectedSelected 1 (pointerDownAt 500 250) \<and>
   1 \<notin> set (selectedCards connectedSelected) \<and>
   connectingFrom connectedSelected = Some 0 \<and>
   selectedCards connectedSelected = [0] \<and>
   selectedCards (fst (onCardMouseDown (pointerDownAt 500 250) 1 connectedSelected)) = [0, 1]"
proof -
  have pre: "\<not> targetIsInput (pointerDownAt 200 150) \<and> \<not> altKey (pointerDownAt 200 150) \<and>
     \<not> ctrlKey (pointerDownAt 200 150) \<and> \<not> shiftKey (pointerDownAt 200 150) \<and>
     \<not> targetIsInput (pointerDownAt 500 250) \<and> \<not> altKey (pointerDownAt 500 250) \<and>
     \<not> ctrlKey (pointerDownAt 500 250) \<and> \<not> shiftKey (pointerDownAt 500 250) \<and>
     \<not> isResizingEdge twoCardsLit 0 (pointerDownAt 200 150) \<and>
     0 \<notin> set (selectedCards twoCardsLit) \<and>
     connectingFrom twoCardsLit = None \<and>
     \<not> isResizingEdge pendingConnect 0 (pointerDownAt 200 150) \<and>
     0 \<notin> set (selectedCards pendingConnect) \<and>
     connectingFrom pendingConnect = Some 0 \<and>
     \<not> isResizingEdge connectedSelected 1 (pointerDownAt 500 250) \<and>
     1 \<notin> set (selectedCards connectedSelected) \<and>
     connectingFrom connectedSelected = Some 0 \<and>
     selectedCards connectedSelected = [0]"
    by code_simp
  show ?thesis
    using pre
      onCardMouseDown_exclusive [of "pointerDownAt 200 150" twoCardsLit 0]
      onCardMouseDown_exclusive [of "pointerDownAt 200 150" pendingConnect 0]
      onCardMouseDown_exclusive [of "pointerDownAt 500 250" connectedSelected 1]
    by simp
qed

subsection \<open>Frame of the connect-toggle\<close>

text \<open>
  C10. An Alt-modified click on a card is a pointer-down with Alt held followed by the
  click. The pointer-down starts no gesture and changes nothing; the click changes at most
  the connector list and \<open>connectingFrom\<close>: the selection, the card list and every card
  object (hence every card's x, y, width, height, title and text) are as before.
\<close>

theorem altClick_frame:
  assumes "altKey down"
  shows "snd (onCardMouseDown down crd st) = NoGesture \<and>
         selectedCards (onCardClick click crd (fst (onCardMouseDown down crd st))) = selectedCards st \<and>
         store (onCardClick click crd (fst (onCardMouseDown down crd st))) = store st \<and>
         cards (onCardClick click crd (fst (onCardMouseDown down crd st))) = cards st \<and>
         onCardClick click crd (fst (onCardMouseDown down crd st)) =
           st\<lparr>connectors := connectors (onCardClick click crd (fst (onCardMouseDown down crd st))),
              connectingFrom := connectingFrom (onCardClick click crd (fst (onCardMouseDown down crd st)))\<rparr>"
  using assms
  by (simp add: onCardMouseDown_def onCardClick_def split: option.split)

theorem altClick_frame_witness:
  "altKey altClickEvent \<and>
   selectedCards (onCardClick altClickEvent 1 (fst (onCardMouseDown altClickEvent 1 connectedSelected))) = [0] \<and>
   store (onCardClick altClickEvent 1 (fst (onCardMouseDown altClickEvent 1 connectedSelected))) =
     store connectedSelected \<and>
   connectors (onCardClick altClickEvent 1 (fst (onCardMouseDown altClickEvent 1 connectedSelected))) = [] \<and>
   connectingFrom (onCardClick altClickEvent 1 (fst (onCardMouseDown altClickEvent 1 connectedSelected))) = None"
  using altClick_frame [of altClickEvent 1 connectedSelected altClickEvent]
  by (simp add: altClickEvent_def connectedSelected_def twoCardsLit_def onCardMouseDown_def
      onCardClick_def splice1_def)

subsection \<open>Arithmetic of the grid\<close>

lemma math_round_of_int: "math_round (of_int k) = k"
  by (simp add: math_round_def)



lemma snapToGrid_unit: "snapToGrid st v = of_int (math_round (v / gridUnit st)) * gridUnit st"
  by (simp add: snapToGrid_def gridUnit_def)

lemma snapToGrid_multiple: "snapToGrid st (of_int k * gridUnit st) = of_int k * gridUnit st"
  by (cases "gridUnit st = 0") (simp_all add: snapToGrid_unit math_round_of_int)

lemma onGrid_iff: "onGrid st v \<longleftrightarrow> (\<exists>k::int. v = of_int k * gridUnit st)"
proof
  assume "onGrid st v"
  then have "v = of_int (math_round (v / gridUnit st)) * gridUnit st"
    by (simp add: onGrid_def snapToGrid_unit)
  then show "\<exists>k::int. v = of_int k * gridUnit st" ..
next
  assume "\<exists>k::int. v = of_int k * gridUnit st"
  then show "onGrid st v"
    by (auto simp: onGrid_def snapToGrid_multiple)
qed

lemma onGrid_snapToGrid: "onGrid st (snapToGrid st v)"
  unfolding onGrid_iff snapToGrid_unit by blast

lemma snapToGrid_idem: "snapToGrid st (snapToGrid st v) = snapToGrid st v"
  using onGrid_snapToGrid [of st v] by (simp add: onGrid_def)

lemma onGrid_add: "onGrid st a \<Longrightarrow> onGrid st b \<Longrightarrow> onGrid st (a + b)"
  unfolding onGrid_iff
  by (metis distrib_right of_int_add)

lemma onGrid_diff: "onGrid st a \<Longrightarrow> onGrid st b \<Longrightarrow> onGrid st (a - b)"
  unfolding onGrid_iff
  by (metis left_diff_distrib of_int_diff)




subsection \<open>Resolving an exact overlap\<close>







subsection \<open>The object store under in-place updates\<close>

lemma updCard_frame [simp]:
  "scale (updCard r f st) = scale st"
  "gridSpacing (updCard r f st) = gridSpacing st"
  "cards (updCard r f st) = cards st"
  "selectedCards (updCard r f st) = selectedCards st"
  "connectors (updCard r f st) = connectors st"
  "connectingFrom (updCard r f st) = connectingFrom st"
  "clipboard (updCard r f st) = clipboard st"
  "cardCount (updCard r f st) = cardCount st"
  "length (store (updCard r f st)) = length (store st)"
  by (simp_all add: updCard_def)

lemma store_updCard:
  "store (updCard r f st) ! i =
     (if i = r \<and> r < length (store st) then f (store st ! r) else store st ! i)"
  by (cases "r < length (store st)") (auto simp: updCard_def nth_list_update list_update_beyond)


text \<open>A \<open>forEach\<close> over cards that mutates one card per step touches only the store.\<close>

lemma fold_updCard_frame:
  "scale (fold (\<lambda>r s. updCard r (F r s) s) xs st) = scale st \<and>
   gridSpacing (fold (\<lambda>r s. updCard r (F r s) s) xs st) = gridSpacing st \<and>
   cards (fold (\<lambda>r s. updCard r (F r s) s) xs st) = cards st \<and>
   selectedCards (fold (\<lambda>r s. updCard r (F r s) s) xs st) = selectedCards st \<and>
   connectors (fold (\<lambda>r s. updCard r (F r s) s) xs st) = connectors st \<and>
   connectingFrom (fold (\<lambda>r s. updCard r (F r s) s) xs st) = connectingFrom st \<and>
   clipboard (fold (\<lambda>r s. updCard r (F r s) s) xs st) = clipboard st \<and>
   cardCount (fold (\<lambda>r s. updCard r (F r s) s) xs st) = cardCount st \<and>
   length (store (fold (\<lambda>r s. updCard r (F r s) s) xs st)) = length (store st)"
  by (induction xs arbitrary: st) simp_all

text \<open>A property of single cards that every step keeps is kept at every address.\<close>

lemma fold_updCard_pres:
  assumes step: "\<And>r s c. scale s = sc \<Longrightarrow> gridSpacing s = g \<Longrightarrow> P c \<Longrightarrow> P (F r s c)"
    and "scale st = sc" and "gridSpacing st = g"
    and "P (store st ! i)"
  shows "P (store (fold (\<lambda>r s. updCard r (F r s) s) xs st) ! i)"
  using assms(2-4)
proof (induction xs arbitrary: st)
  case Nil
  then show ?case by simp
next
  case (Cons r xs)
  have "P (store (updCard r (F r st) st) ! i)"
    using Cons.prems step [of st _ r] by (auto simp: store_updCard)
  then show ?case
    using Cons.IH [of "updCard r (F r st) st"] Cons.prems by simp
qed

text \<open>A property that every step establishes holds afterwards at every visited address.\<close>

lemma fold_updCard_establish:
  assumes step: "\<And>r s c. scale s = sc \<Longrightarrow> gridSpacing s = g \<Longrightarrow> P (F r s c)"
    and "scale st = sc" and "gridSpacing st = g"
    and "i \<in> set xs" and "i < length (store st)"
  shows "P (store (fold (\<lambda>r s. updCard r (F r s) s) xs st) ! i)"
  using assms(2-5)
proof (induction xs arbitrary: st)
  case Nil
  then show ?case by simp
next
  case (Cons r xs)
  show ?case
  proof (cases "r = i")
    case True
    have "P (store (updCard r (F r st) st) ! i)"
      using True Cons.prems step [of st r] by (simp add: store_updCard)
    then have "P (store (fold (\<lambda>r s. updCard r (F r s) s) xs (updCard r (F r st) st)) ! i)"
      using Cons.prems
      by (intro fold_updCard_pres [where P = P and sc = sc and g = g]) (simp_all add: step)
    then show ?thesis by simp
  next
    case False
    then have "i \<in> set xs" using Cons.prems by simp
    then show ?thesis
      using Cons.IH [of "updCard r (F r st) st"] Cons.prems by simp
  qed
qed

text \<open>An address that no step visits keeps its object.\<close>

lemma fold_updCard_untouched:
  "i \<notin> set xs \<Longrightarrow> store (fold (\<lambda>r s. updCard r (F r s) s) xs st) ! i = store st ! i"
  by (induction xs arbitrary: st) (simp_all add: store_updCard)

text \<open>With one fixed mutation and no card listed twice, each listed card is mutated once.\<close>

lemma fold_updCard_const_nth:
  assumes "distinct xs" and "\<forall>r \<in> set xs. r < length (store st)"
  shows "store (fold (\<lambda>r s. updCard r h s) xs st) ! i =
           (if i \<in> set xs then h (store st ! i) else store st ! i)"
  using assms
proof (induction xs arbitrary: st)
  case Nil
  then show ?case by simp
next
  case (Cons r xs)
  have "store (fold (\<lambda>r s. updCard r h s) xs (updCard r h st)) ! i =
          (if i \<in> set xs then h (store (updCard r h st) ! i) else store (updCard r h st) ! i)"
    using Cons.prems by (intro Cons.IH) simp_all
  then show ?case
    using Cons.prems by (auto simp: store_updCard)
qed


subsection \<open>Overlap resolution without obstacles\<close>

lemma snapToGrid_cong:
  "scale s = scale t \<Longrightarrow> gridSpacing s = gridSpacing t \<Longrightarrow> snapToGrid s v = snapToGrid t v"
  by (simp add: snapToGrid_def)

lemma onGrid_cong:
  "scale s = scale t \<Longrightarrow> gridSpacing s = gridSpacing t \<Longrightarrow> onGrid s v = onGrid t v"
  by (simp add: onGrid_def snapToGrid_def)

lemma preventOverlap_onGrid:
  "onGrid st (fst (preventOverlap st r x y)) \<and> onGrid st (snd (preventOverlap st r x y))"
  by (simp add: preventOverlap_def Let_def onGrid_snapToGrid)





lemma preventOverlapsAfterZoom_frame:
  "scale (preventOverlapsAfterZoom st) = scale st \<and>
   gridSpacing (preventOverlapsAfterZoom st) = gridSpacing st \<and>
   cards (preventOverlapsAfterZoom st) = cards st \<and>
   selectedCards (preventOverlapsAfterZoom st) = selectedCards st \<and>
   connectors (preventOverlapsAfterZoom st) = connectors st \<and>
   connectingFrom (preventOverlapsAfterZoom st) = connectingFrom st \<and>
   clipboard (preventOverlapsAfterZoom st) = clipboard st \<and>
   cardCount (preventOverlapsAfterZoom st) = cardCount st \<and>
   length (store (preventOverlapsAfterZoom st)) = length (store st)"
  unfolding preventOverlapsAfterZoom_def Let_def
  by (rule fold_updCard_frame)


lemma preventOverlapsAfterZoom_onGrid:
  assumes "i \<in> set (cards st)" and "i < length (store st)"
  shows "onGrid st (baseX (store (preventOverlapsAfterZoom st) ! i)) \<and>
         onGrid st (baseY (store (preventOverlapsAfterZoom st) ! i))"
  unfolding preventOverlapsAfterZoom_def Let_def
proof (rule fold_updCard_establish [where sc = "scale st" and g = "gridSpacing st"])
  fix r :: ref and s :: state and c :: card
  assume "scale s = scale st" and "gridSpacing s = gridSpacing st"
  then have "onGrid s v = onGrid st v" for v
    by (rule onGrid_cong)
  then show "onGrid st (baseX (c\<lparr>baseX := fst (preventOverlap s r (baseX (store s ! r)) (baseY (store s ! r))),
                   baseY := snd (preventOverlap s r (baseX (store s ! r)) (baseY (store s ! r)))\<rparr>)) \<and>
        onGrid st (baseY (c\<lparr>baseX := fst (preventOverlap s r (baseX (store s ! r)) (baseY (store s ! r))),
                   baseY := snd (preventOverlap s r (baseX (store s ! r)) (baseY (store s ! r)))\<rparr>))"
    using preventOverlap_onGrid [of s r] by simp
qed (use assms in simp_all)

subsection \<open>Overlap resolution with a single obstacle\<close>







subsection \<open>Zoom\<close>

lemma zoom_rejected: "\<not> zoomAccepted delta st \<Longrightarrow> zoom delta st = st"
  by (auto simp: zoom_def zoomAccepted_def Let_def)

lemma zoom_accepted:
  "zoomAccepted delta st \<Longrightarrow>
   zoom delta st =
     preventOverlapsAfterZoom
       (fold (\<lambda>r s. updCard r (scaleCard delta) s) (cards st) (st\<lparr>scale := scale st * delta\<rparr>))"
  by (simp add: zoom_def zoomAccepted_def Let_def scaleCard_def [abs_def])

lemma scaled_frame:
  "scale (fold (\<lambda>r s. updCard r (scaleCard delta) s) xs (st\<lparr>scale := k\<rparr>)) = k \<and>
   gridSpacing (fold (\<lambda>r s. updCard r (scaleCard delta) s) xs (st\<lparr>scale := k\<rparr>)) = gridSpacing st \<and>
   cards (fold (\<lambda>r s. updCard r (scaleCard delta) s) xs (st\<lparr>scale := k\<rparr>)) = cards st \<and>
   selectedCards (fold (\<lambda>r s. updCard r (scaleCard delta) s) xs (st\<lparr>scale := k\<rparr>)) = selectedCards st \<and>
   length (store (fold (\<lambda>r s. updCard r (scaleCard delta) s) xs (st\<lparr>scale := k\<rparr>))) = length (store st)"
  using fold_updCard_frame [of "\<lambda>r s. scaleCard delta" xs "st\<lparr>scale := k\<rparr>"] by simp

lemma scaled_store:
  assumes "distinct (cards st)" and "refsValid st"
  shows "store (fold (\<lambda>r s. updCard r (scaleCard delta) s) (cards st) (st\<lparr>scale := k\<rparr>)) ! i =
           (if i \<in> set (cards st) then scaleCard delta (store st ! i) else store st ! i)"
  using fold_updCard_const_nth [of "cards st" "st\<lparr>scale := k\<rparr>" "scaleCard delta" i] assms
  by (simp add: refsValid_def)

lemma onGrid_scaled:
  assumes "onGrid st v" and "scale t = scale st * delta" and "gridSpacing t = gridSpacing st"
  shows "onGrid t (v * delta)"
proof -
  obtain k :: int where "v = of_int k * gridUnit st"
    using assms(1) by (auto simp: onGrid_iff)
  then have "v * delta = of_int k * gridUnit t"
    using assms(2,3) by (simp add: gridUnit_def)
  then show ?thesis by (auto simp: onGrid_iff)
qed


















subsection \<open>Paste, step by step\<close>

lemma selectCard_frame [simp]:
  "scale (selectCard r st) = scale st"
  "gridSpacing (selectCard r st) = gridSpacing st"
  "cards (selectCard r st) = cards st"
  "store (selectCard r st) = store st"
  "connectors (selectCard r st) = connectors st"
  "cardCount (selectCard r st) = cardCount st"
  by (simp_all add: selectCard_def)

lemma clearSelection_frame [simp]:
  "scale (clearSelection st) = scale st"
  "gridSpacing (clearSelection st) = gridSpacing st"
  "cards (clearSelection st) = cards st"
  "store (clearSelection st) = store st"
  "connectors (clearSelection st) = connectors st"
  "clipboard (clearSelection st) = clipboard st"
  by (simp_all add: clearSelection_def)

lemma pasteItem_state:
  "scale (fst (pasteItem item acc)) = scale (fst acc) \<and>
   gridSpacing (fst (pasteItem item acc)) = gridSpacing (fst acc) \<and>
   connectors (fst (pasteItem item acc)) = connectors (fst acc) \<and>
   store (fst (pasteItem item acc)) = store (fst acc) @ [pastedCard (fst acc) item] \<and>
   cards (fst (pasteItem item acc)) = cards (fst acc) @ [length (store (fst acc))]"
  by (simp add: pasteItem_def pastedCard_def Let_def)

text \<open>
  Creating the pasted cards keeps a property of width and height that holds for the
  existing cards and for every clipboard entry at the current scale.
\<close>

lemma fold_pasteItem_sizes:
  assumes "\<forall>r \<in> set (cards (fst acc)).
             Q (baseWidth (store (fst acc) ! r)) (baseHeight (store (fst acc) ! r))"
    and "refsValid (fst acc)"
    and "\<forall>item \<in> set items.
           Q (item_baseWidth item * scale (fst acc)) (item_baseHeight item * scale (fst acc))"
  shows "(\<forall>r \<in> set (cards (fst (fold pasteItem items acc))).
            Q (baseWidth (store (fst (fold pasteItem items acc)) ! r))
              (baseHeight (store (fst (fold pasteItem items acc)) ! r))) \<and>
         refsValid (fst (fold pasteItem items acc)) \<and>
         scale (fst (fold pasteItem items acc)) = scale (fst acc) \<and>
         gridSpacing (fst (fold pasteItem items acc)) = gridSpacing (fst acc)"
  using assms
proof (induction items arbitrary: acc)
  case Nil
  then show ?case by simp
next
  case (Cons item items)
  let ?acc = "pasteItem item acc"
  have ps: "scale (fst ?acc) = scale (fst acc)" "gridSpacing (fst ?acc) = gridSpacing (fst acc)"
    "store (fst ?acc) = store (fst acc) @ [pastedCard (fst acc) item]"
    "cards (fst ?acc) = cards (fst acc) @ [length (store (fst acc))]"
    using pasteItem_state [of item acc] by simp_all
  have new: "Q (baseWidth (pastedCard (fst acc) item)) (baseHeight (pastedCard (fst acc) item))"
    using Cons.prems(3) by (simp add: pastedCard_def)
  have 1: "\<forall>r \<in> set (cards (fst ?acc)). Q (baseWidth (store (fst ?acc) ! r)) (baseHeight (store (fst ?acc) ! r))"
    using Cons.prems(1,2) new by (auto simp: ps refsValid_def nth_append)
  have 2: "refsValid (fst ?acc)"
    using Cons.prems(2) by (auto simp: ps refsValid_def)
  have 3: "\<forall>i \<in> set items. Q (item_baseWidth i * scale (fst ?acc)) (item_baseHeight i * scale (fst ?acc))"
    using Cons.prems(3) by (simp add: ps)
  show ?case
    using Cons.IH [OF 1 2 3] ps by simp
qed

lemma pasteConn_frame:
  "scale (pasteConn m conn st) = scale st \<and> gridSpacing (pasteConn m conn st) = gridSpacing st \<and>
   cards (pasteConn m conn st) = cards st \<and> store (pasteConn m conn st) = store st \<and>
   selectedCards (pasteConn m conn st) = selectedCards st"
  by (simp add: pasteConn_def split: option.split)

lemma fold_pasteConn_frame:
  "scale (fold (pasteConn m) conns st) = scale st \<and>
   gridSpacing (fold (pasteConn m) conns st) = gridSpacing st \<and>
   cards (fold (pasteConn m) conns st) = cards st \<and>
   store (fold (pasteConn m) conns st) = store st \<and>
   selectedCards (fold (pasteConn m) conns st) = selectedCards st"
  by (induction conns arbitrary: st) (simp_all add: pasteConn_frame)

lemma fold_items_pasteConn_frame:
  "scale (fold (\<lambda>item s. fold (pasteConn m) (connections item) s) items st) = scale st \<and>
   gridSpacing (fold (\<lambda>item s. fold (pasteConn m) (connections item) s) items st) = gridSpacing st \<and>
   cards (fold (\<lambda>item s. fold (pasteConn m) (connections item) s) items st) = cards st \<and>
   store (fold (\<lambda>item s. fold (pasteConn m) (connections item) s) items st) = store st \<and>
   selectedCards (fold (\<lambda>item s. fold (pasteConn m) (connections item) s) items st) = selectedCards st"
  by (induction items arbitrary: st) (simp_all add: fold_pasteConn_frame)

lemma preventOverlapsAfterPaste_frame:
  "scale (preventOverlapsAfterPaste st) = scale st \<and>
   gridSpacing (preventOverlapsAfterPaste st) = gridSpacing st \<and>
   cards (preventOverlapsAfterPaste st) = cards st \<and>
   selectedCards (preventOverlapsAfterPaste st) = selectedCards st \<and>
   connectors (preventOverlapsAfterPaste st) = connectors st \<and>
   connectingFrom (preventOverlapsAfterPaste st) = connectingFrom st \<and>
   clipboard (preventOverlapsAfterPaste st) = clipboard st \<and>
   cardCount (preventOverlapsAfterPaste st) = cardCount st \<and>
   length (store (preventOverlapsAfterPaste st)) = length (store st)"
  unfolding preventOverlapsAfterPaste_def Let_def
  by (rule fold_updCard_frame)

lemma preventOverlapsAfterPaste_size:
  "baseWidth (store (preventOverlapsAfterPaste st) ! i) = baseWidth (store st ! i) \<and>
   baseHeight (store (preventOverlapsAfterPaste st) ! i) = baseHeight (store st ! i)"
  unfolding preventOverlapsAfterPaste_def Let_def
  by (rule fold_updCard_pres [where sc = "scale st" and g = "gridSpacing st"]) simp_all

text \<open>The same for the whole of \<open>pasteCards\<close>.\<close>

lemma pasteCards_sizes:
  assumes "\<forall>r \<in> set (cards st). Q (baseWidth (store st ! r)) (baseHeight (store st ! r))"
    and "refsValid st"
    and "\<forall>item \<in> set (clipboard st).
           Q (item_baseWidth item * scale st) (item_baseHeight item * scale st)"
  shows "(\<forall>r \<in> set (cards (pasteCards st)).
            Q (baseWidth (store (pasteCards st) ! r)) (baseHeight (store (pasteCards st) ! r))) \<and>
         refsValid (pasteCards st) \<and>
         scale (pasteCards st) = scale st \<and>
         gridSpacing (pasteCards st) = gridSpacing st"
proof (cases "clipboard st = []")
  case True
  then show ?thesis using assms by (simp add: pasteCards_def)
next
  case False
  define created where "created = fold pasteItem (clipboard st) (clearSelection st, Map.empty)"
  define wired where "wired = fold (\<lambda>item s. fold (pasteConn (snd created)) (connections item) s)
                         (clipboard st) (fst created)"
  have p: "pasteCards st = preventOverlapsAfterPaste wired"
    using False by (simp add: pasteCards_def Let_def created_def wired_def)
  have c: "(\<forall>r \<in> set (cards (fst created)).
            Q (baseWidth (store (fst created) ! r)) (baseHeight (store (fst created) ! r))) \<and>
         refsValid (fst created) \<and> scale (fst created) = scale st \<and>
         gridSpacing (fst created) = gridSpacing st"
    unfolding created_def
    using fold_pasteItem_sizes [of "(clearSelection st, Map.empty)" Q "clipboard st"] assms
    by (simp add: refsValid_def)
  have w: "scale wired = scale (fst created)" "gridSpacing wired = gridSpacing (fst created)"
      "cards wired = cards (fst created)" "store wired = store (fst created)"
    unfolding wired_def using fold_items_pasteConn_frame [of "snd created" "clipboard st" "fst created"]
    by simp_all
  show ?thesis
    using c w preventOverlapsAfterPaste_frame [of wired] preventOverlapsAfterPaste_size [of wired]
    by (simp add: p refsValid_def)
qed

subsection \<open>Minimum size\<close>




lemma resizeMove_frame [simp]:
  "scale (resizeMove g e st) = scale st"
  "gridSpacing (resizeMove g e st) = gridSpacing st"
  "cards (resizeMove g e st) = cards st"
  by (simp_all add: resizeMove_def Let_def split: direction.split prod.split)

text \<open>The card that a resize move sample writes, read field by field.\<close>

lemma resizeMove_store:
  "store (resizeMove g e st) ! i =
     (if i = res_card g \<and> res_card g < length (store st)
      then store (resizeMove g e st) ! res_card g else store st ! i)"
  by (simp add: resizeMove_def Let_def store_updCard split: direction.split prod.split)













subsection \<open>Grid alignment\<close>

lemma cardOnGrid_cong:
  "scale s = scale t \<Longrightarrow> gridSpacing s = gridSpacing t \<Longrightarrow> cardOnGrid s c = cardOnGrid t c"
  by (simp add: cardOnGrid_def onGrid_cong [of s t])

lemma gridAligned_dragUp:
  assumes "gridAligned st"
  shows "gridAligned (dragUp st)"
proof -
  have fr: "scale (dragUp st) = scale st" "gridSpacing (dragUp st) = gridSpacing st"
      "cards (dragUp st) = cards st"
    unfolding dragUp_def
    using fold_updCard_frame [where xs = "selectedCards st" and st = st] by simp_all
  have "cardOnGrid st (store (dragUp st) ! r)" if "r \<in> set (cards st)" for r
    unfolding dragUp_def
  proof (rule fold_updCard_pres [where sc = "scale st" and g = "gridSpacing st"])
    fix q :: ref and s :: state and c :: card
    assume s: "scale s = scale st" "gridSpacing s = gridSpacing st" and c: "cardOnGrid st c"
    have "onGrid st (snapToGrid s v)" for v
      using onGrid_snapToGrid [of s v] onGrid_cong [OF s] by simp
    then show "cardOnGrid st (c\<lparr>baseX := snapToGrid s (baseX c), baseY := snapToGrid s (baseY c)\<rparr>)"
      using c by (simp add: cardOnGrid_def)
  next
    show "cardOnGrid st (store st ! r)"
      using assms that by (simp add: gridAligned_def)
  qed simp_all
  then show ?thesis
    using fr cardOnGrid_cong [OF fr(1,2)] by (simp add: gridAligned_def)
qed

lemma gridAligned_zoom:
  assumes "gridAligned st" and "refsValid st" and "distinct (cards st)"
  shows "gridAligned (zoom delta st)"
proof (cases "zoomAccepted delta st")
  case False
  then show ?thesis using assms(1) by (simp add: zoom_rejected)
next
  case True
  define S where "S = fold (\<lambda>r s. updCard r (scaleCard delta) s) (cards st) (st\<lparr>scale := scale st * delta\<rparr>)"
  have z: "zoom delta st = preventOverlapsAfterZoom S"
    unfolding S_def using True by (rule zoom_accepted)
  have fr: "scale S = scale st * delta" "gridSpacing S = gridSpacing st" "cards S = cards st"
    unfolding S_def
    using scaled_frame [where delta = delta and xs = "cards st" and st = st and k = "scale st * delta"]
    by simp_all
  have zfr: "scale (zoom delta st) = scale S" "gridSpacing (zoom delta st) = gridSpacing S"
      "cards (zoom delta st) = cards S"
    using z preventOverlapsAfterZoom_frame [of S] by simp_all
  have "cardOnGrid S (store (zoom delta st) ! r)" if r: "r \<in> set (cards st)" for r
    unfolding z preventOverlapsAfterZoom_def Let_def
  proof (rule fold_updCard_pres [where sc = "scale S" and g = "gridSpacing S"])
    fix q :: ref and s :: state and c :: card
    assume s: "scale s = scale S" "gridSpacing s = gridSpacing S" and c: "cardOnGrid S c"
    have "onGrid S (fst (preventOverlap s q x y)) \<and> onGrid S (snd (preventOverlap s q x y))" for x y
      using preventOverlap_onGrid [of s q x y] onGrid_cong [OF s] by simp
    then show "cardOnGrid S (c\<lparr>baseX := fst (preventOverlap s q (baseX (store s ! q)) (baseY (store s ! q))),
                                baseY := snd (preventOverlap s q (baseX (store s ! q)) (baseY (store s ! q)))\<rparr>)"
      using c by (simp add: cardOnGrid_def)
  next
    have "store S ! r = scaleCard delta (store st ! r)"
      unfolding S_def using scaled_store [OF assms(3,2)] r by simp
    moreover have "cardOnGrid st (store st ! r)"
      using assms(1) r by (simp add: gridAligned_def)
    ultimately show "cardOnGrid S (store S ! r)"
      using onGrid_scaled [OF _ fr(1,2)] by (simp add: cardOnGrid_def scaleCard_def)
  qed simp_all
  then show ?thesis
    using zfr fr cardOnGrid_cong [OF zfr(1,2)] by (simp add: gridAligned_def)
qed

lemma resize_onGrid:
  assumes "scale st = 1"
  shows "onGrid st (resizeWidth st raw) \<and> onGrid st (resizeHeight st raw)"
  using assms by (simp add: resizeWidth_def resizeHeight_def onGrid_snapToGrid)

lemma resizeMove_card_onGrid:
  assumes "scale st = 1"
    and "onGrid st (initialX g)" "onGrid st (initialY g)"
    and "onGrid st (initialWidth g)" "onGrid st (initialHeight g)"
    and "res_card g < length (store st)"
  shows "cardOnGrid st (store (resizeMove g e st) ! res_card g)"
  using assms resize_onGrid [OF assms(1)]
  by (cases "res_direction g")
     (simp_all add: resizeMove_def Let_def store_updCard cardOnGrid_def onGrid_add onGrid_diff)

lemma gridAligned_resizeMove:
  assumes "gridAligned st" and "scale st = 1"
    and "onGrid st (initialX g)" "onGrid st (initialY g)"
    and "onGrid st (initialWidth g)" "onGrid st (initialHeight g)"
  shows "gridAligned (resizeMove g e st)"
  unfolding gridAligned_def
proof
  fix r assume "r \<in> set (cards (resizeMove g e st))"
  then have r: "r \<in> set (cards st)" by simp
  have "cardOnGrid st (store (resizeMove g e st) ! r)"
  proof (cases "r = res_card g \<and> res_card g < length (store st)")
    case True
    then show ?thesis using resizeMove_card_onGrid [OF assms(2-6)] by simp
  next
    case False
    then have "store (resizeMove g e st) ! r = store st ! r"
      using resizeMove_store [of g e st r] by auto
    then show ?thesis using assms(1) r by (simp add: gridAligned_def)
  qed
  then show "cardOnGrid (resizeMove g e st) (store (resizeMove g e st) ! r)"
    using cardOnGrid_cong [of "resizeMove g e st" st] by simp
qed

lemma preventOverlapsAfterPaste_onGrid:
  assumes "scale st = 1" and "i \<in> set (cards st)" and "i < length (store st)"
  shows "onGrid st (baseX (store (preventOverlapsAfterPaste st) ! i)) \<and>
         onGrid st (baseY (store (preventOverlapsAfterPaste st) ! i))"
  unfolding preventOverlapsAfterPaste_def Let_def
proof (rule fold_updCard_establish [where sc = "scale st" and g = "gridSpacing st"])
  fix r :: ref and s :: state and c :: card
  assume s: "scale s = scale st" "gridSpacing s = gridSpacing st"
  have "onGrid st (fst (preventOverlap s r x y)) \<and> onGrid st (snd (preventOverlap s r x y))" for x y
    using preventOverlap_onGrid [of s r x y] onGrid_cong [OF s] by simp
  then show "onGrid st (baseX (c\<lparr>baseX := fst (preventOverlap s r (baseX (store s ! r) / scale s) (baseY (store s ! r) / scale s)) * scale s,
                   baseY := snd (preventOverlap s r (baseX (store s ! r) / scale s) (baseY (store s ! r) / scale s)) * scale s\<rparr>)) \<and>
        onGrid st (baseY (c\<lparr>baseX := fst (preventOverlap s r (baseX (store s ! r) / scale s) (baseY (store s ! r) / scale s)) * scale s,
                   baseY := snd (preventOverlap s r (baseX (store s ! r) / scale s) (baseY (store s ! r) / scale s)) * scale s\<rparr>))"
    using s(1) assms(1) by simp
qed (use assms in simp_all)

text \<open>A paste of a non-empty clipboard ends with the overlap pass over the enlarged canvas.\<close>

lemma pasteCards_unfold:
  assumes "clipboard st \<noteq> []" and "refsValid st"
  shows "\<exists>wired. pasteCards st = preventOverlapsAfterPaste wired \<and>
           scale wired = scale st \<and> gridSpacing wired = gridSpacing st \<and> refsValid wired"
proof -
  define created where "created = fold pasteItem (clipboard st) (clearSelection st, Map.empty)"
  define wired where "wired = fold (\<lambda>item s. fold (pasteConn (snd created)) (connections item) s)
                         (clipboard st) (fst created)"
  have p: "pasteCards st = preventOverlapsAfterPaste wired"
    using assms(1) by (simp add: pasteCards_def Let_def created_def wired_def)
  have c: "refsValid (fst created) \<and> scale (fst created) = scale st \<and>
         gridSpacing (fst created) = gridSpacing st"
    unfolding created_def
    using fold_pasteItem_sizes [of "(clearSelection st, Map.empty)" "\<lambda>w h. True" "clipboard st"] assms(2)
    by (simp add: refsValid_def)
  have w: "scale wired = scale (fst created)" "gridSpacing wired = gridSpacing (fst created)"
      "cards wired = cards (fst created)" "store wired = store (fst created)"
    unfolding wired_def using fold_items_pasteConn_frame [of "snd created" "clipboard st" "fst created"]
    by simp_all
  show ?thesis
    using p c w by (intro exI [of _ wired]) (simp add: refsValid_def)
qed

lemma gridAligned_pasteCards:
  assumes "gridAligned st" and "scale st = 1" and "refsValid st"
    and "\<forall>item \<in> set (clipboard st). onGrid st (item_baseWidth item) \<and> onGrid st (item_baseHeight item)"
  shows "gridAligned (pasteCards st)"
proof (cases "clipboard st = []")
  case True
  then show ?thesis using assms(1) by (simp add: pasteCards_def)
next
  case False
  obtain wired where p: "pasteCards st = preventOverlapsAfterPaste wired"
    and w: "scale wired = scale st" "gridSpacing wired = gridSpacing st" "refsValid wired"
    using pasteCards_unfold [OF False assms(3)] by blast
  have fr: "scale (pasteCards st) = scale st" "gridSpacing (pasteCards st) = gridSpacing st"
      "cards (pasteCards st) = cards wired"
    using p w preventOverlapsAfterPaste_frame [of wired] by simp_all
  have sizes: "\<forall>r \<in> set (cards (pasteCards st)).
      onGrid st (baseWidth (store (pasteCards st) ! r)) \<and> onGrid st (baseHeight (store (pasteCards st) ! r))"
    using pasteCards_sizes [of st "\<lambda>w h. onGrid st w \<and> onGrid st h"] assms
    by (simp add: gridAligned_def cardOnGrid_def)
  have pos: "onGrid st (baseX (store (pasteCards st) ! r)) \<and> onGrid st (baseY (store (pasteCards st) ! r))"
    if "r \<in> set (cards (pasteCards st))" for r
  proof -
    have "r \<in> set (cards wired)" "r < length (store wired)"
      using that fr(3) w(3) by (simp_all add: refsValid_def)
    then have "onGrid wired (baseX (store (preventOverlapsAfterPaste wired) ! r)) \<and>
               onGrid wired (baseY (store (preventOverlapsAfterPaste wired) ! r))"
      using w(1) assms(2) by (intro preventOverlapsAfterPaste_onGrid) simp_all
    then show ?thesis
      using p onGrid_cong [OF w(1,2)] by simp
  qed
  show ?thesis
    using sizes pos cardOnGrid_cong [OF fr(1,2)]
    by (simp add: gridAligned_def cardOnGrid_def onGrid_cong [OF fr(1,2)])
qed

text \<open>The drag commit, card by card.\<close>

lemma fold_snap_store:
  assumes "r \<in> set xs" and "r < length (store st)"
  shows "store (fold (\<lambda>q s. updCard q (\<lambda>c. c\<lparr>baseX := snapToGrid s (baseX c),
                                                baseY := snapToGrid s (baseY c)\<rparr>) s) xs st) ! r =
           (store st ! r)\<lparr>baseX := snapToGrid st (baseX (store st ! r)),
                          baseY := snapToGrid st (baseY (store st ! r))\<rparr>"
  using assms
proof (induction xs arbitrary: st)
  case Nil
  then show ?case by simp
next
  case (Cons q xs)
  let ?f = "\<lambda>s c. c\<lparr>baseX := snapToGrid s (baseX c), baseY := snapToGrid s (baseY c)\<rparr>"
  let ?st1 = "updCard q (?f st) st"
  have sn: "snapToGrid ?st1 v = snapToGrid st v" for v
    by (rule snapToGrid_cong) simp_all
  show ?case
  proof (cases "r \<in> set xs")
    case True
    have "store (fold (\<lambda>q s. updCard q (?f s) s) xs ?st1) ! r =
            (store ?st1 ! r)\<lparr>baseX := snapToGrid ?st1 (baseX (store ?st1 ! r)),
                             baseY := snapToGrid ?st1 (baseY (store ?st1 ! r))\<rparr>"
      using True Cons.prems by (intro Cons.IH) simp_all
    then show ?thesis
      using Cons.prems by (simp add: sn store_updCard snapToGrid_idem)
  next
    case False
    then have rq: "r = q" using Cons.prems by simp
    have "store (fold (\<lambda>q s. updCard q (?f s) s) xs ?st1) ! r = store ?st1 ! r"
      using False by (rule fold_updCard_untouched)
    then show ?thesis
      using rq Cons.prems by (simp add: store_updCard)
  qed
qed

lemma dragUp_frame:
  "scale (dragUp st) = scale st \<and> gridSpacing (dragUp st) = gridSpacing st \<and>
   cards (dragUp st) = cards st \<and> selectedCards (dragUp st) = selectedCards st"
  unfolding dragUp_def
  using fold_updCard_frame [where xs = "selectedCards st" and st = st] by simp

lemma dragUp_selected:
  assumes "r \<in> set (selectedCards st)" and "r < length (store st)"
  shows "store (dragUp st) ! r =
           (store st ! r)\<lparr>baseX := snapToGrid st (baseX (store st ! r)),
                          baseY := snapToGrid st (baseY (store st ! r))\<rparr>"
  unfolding dragUp_def using assms by (rule fold_snap_store)

lemma dragUp_unselected:
  "r \<notin> set (selectedCards st) \<Longrightarrow> store (dragUp st) ! r = store st ! r"
  unfolding dragUp_def by (rule fold_updCard_untouched)

lemma dragUp_size:
  "baseWidth (store (dragUp st) ! r) = baseWidth (store st ! r) \<and>
   baseHeight (store (dragUp st) ! r) = baseHeight (store st ! r)"
  unfolding dragUp_def
  by (rule fold_updCard_pres [where sc = "scale st" and g = "gridSpacing st"]) simp_all

lemma positionsOnGrid_zoom:
  assumes "refsValid st" and "zoomAccepted delta st"
  shows "positionsOnGrid (zoom delta st)"
proof -
  define S where "S = fold (\<lambda>r s. updCard r (scaleCard delta) s) (cards st) (st\<lparr>scale := scale st * delta\<rparr>)"
  have z: "zoom delta st = preventOverlapsAfterZoom S"
    unfolding S_def using assms(2) by (rule zoom_accepted)
  have fr: "cards S = cards st" "length (store S) = length (store st)"
    unfolding S_def
    using scaled_frame [where delta = delta and xs = "cards st" and st = st and k = "scale st * delta"]
    by simp_all
  have zfr: "scale (zoom delta st) = scale S" "gridSpacing (zoom delta st) = gridSpacing S"
      "cards (zoom delta st) = cards S"
    using z preventOverlapsAfterZoom_frame [of S] by simp_all
  show ?thesis
    unfolding positionsOnGrid_def
  proof
    fix r assume "r \<in> set (cards (zoom delta st))"
    then have "r \<in> set (cards S)" "r < length (store S)"
      using zfr fr assms(1) by (simp_all add: refsValid_def)
    then have "onGrid S (baseX (store (preventOverlapsAfterZoom S) ! r)) \<and>
               onGrid S (baseY (store (preventOverlapsAfterZoom S) ! r))"
      by (rule preventOverlapsAfterZoom_onGrid)
    then show "onGrid (zoom delta st) (baseX (store (zoom delta st) ! r)) \<and>
               onGrid (zoom delta st) (baseY (store (zoom delta st) ! r))"
      using z onGrid_cong [OF zfr(1,2)] by simp
  qed
qed

lemma resizeMove_dimension_onGrid:
  assumes "scale st \<noteq> 0" and "res_card g < length (store st)"
  shows "(movesWidth (res_direction g) \<longrightarrow>
            onGrid st (baseWidth (store (resizeMove g e st) ! res_card g) * scale st)) \<and>
         (movesHeight (res_direction g) \<longrightarrow>
            onGrid st (baseHeight (store (resizeMove g e st) ! res_card g) * scale st))"
  using assms
  by (cases "res_direction g")
     (simp_all add: resizeMove_def Let_def store_updCard movesWidth_def movesHeight_def
        resizeWidth_def resizeHeight_def onGrid_snapToGrid)

lemma preventOverlapsAfterPaste_onGrid_scaled:
  assumes "scale st \<noteq> 0" and "i \<in> set (cards st)" and "i < length (store st)"
  shows "onGrid st (baseX (store (preventOverlapsAfterPaste st) ! i) / scale st) \<and>
         onGrid st (baseY (store (preventOverlapsAfterPaste st) ! i) / scale st)"
  unfolding preventOverlapsAfterPaste_def Let_def
proof (rule fold_updCard_establish [where sc = "scale st" and g = "gridSpacing st"])
  fix r :: ref and s :: state and c :: card
  assume s: "scale s = scale st" "gridSpacing s = gridSpacing st"
  have "onGrid st (fst (preventOverlap s r x y)) \<and> onGrid st (snd (preventOverlap s r x y))" for x y
    using preventOverlap_onGrid [of s r x y] onGrid_cong [OF s] by simp
  then show "onGrid st (baseX (c\<lparr>baseX := fst (preventOverlap s r (baseX (store s ! r) / scale s) (baseY (store s ! r) / scale s)) * scale s,
                   baseY := snd (preventOverlap s r (baseX (store s ! r) / scale s) (baseY (store s ! r) / scale s)) * scale s\<rparr>) / scale st) \<and>
        onGrid st (baseY (c\<lparr>baseX := fst (preventOverlap s r (baseX (store s ! r) / scale s) (baseY (store s ! r) / scale s)) * scale s,
                   baseY := snd (preventOverlap s r (baseX (store s ! r) / scale s) (baseY (store s ! r) / scale s)) * scale s\<rparr>) / scale st)"
    using s(1) assms(1) by simp
qed (use assms in simp_all)

lemma pasteCards_positions:
  assumes "scale st \<noteq> 0" and "refsValid st" and "clipboard st \<noteq> []"
    and "r \<in> set (cards (pasteCards st))"
  shows "onGrid (pasteCards st) (baseX (store (pasteCards st) ! r) / scale st) \<and>
         onGrid (pasteCards st) (baseY (store (pasteCards st) ! r) / scale st)"
proof -
  obtain wired where p: "pasteCards st = preventOverlapsAfterPaste wired"
    and w: "scale wired = scale st" "gridSpacing wired = gridSpacing st" "refsValid wired"
    using pasteCards_unfold [OF assms(3,2)] by blast
  have fr: "scale (pasteCards st) = scale wired" "gridSpacing (pasteCards st) = gridSpacing wired"
      "cards (pasteCards st) = cards wired"
    using p preventOverlapsAfterPaste_frame [of wired] by simp_all
  have "r \<in> set (cards wired)" "r < length (store wired)"
    using assms(4) fr(3) w(3) by (simp_all add: refsValid_def)
  then have "onGrid wired (baseX (store (preventOverlapsAfterPaste wired) ! r) / scale wired) \<and>
             onGrid wired (baseY (store (preventOverlapsAfterPaste wired) ! r) / scale wired)"
    using w(1) assms(1) by (intro preventOverlapsAfterPaste_onGrid_scaled) simp_all
  then show ?thesis
    using p w(1) onGrid_cong [OF fr(1,2)] by simp
qed

text \<open>
  C4, as claimed, fails. On the start-up canvas zoomed once to scale 1.1 (grid step 55,
  every card aligned), grabbing the right edge of the first card and sending one move
  sample without moving the pointer sets its width from 220 to 200, which is not a
  multiple of 55; copying the first card and pasting sends the first card itself from
  x = 110 to x = 121. On the canvas with grid spacing 30 and a card added afterwards
  (200 wide), a drag commit of that card leaves its width at 200, which is not a multiple
  of 30: the commit snaps x and y only; and a zoom by 1.1 takes that width to 220, on a
  grid step of 33. And on the grid of 30, with one card at x = 230, the drag commit of
  another card leaves it at 230: the commit snaps the selected cards only.
\<close>

theorem gridAligned_counterexample:
  "gridAligned zoomedTwo \<and> cards zoomedTwo = [0, 1] \<and>
   gridSpacing zoomedTwo * scale zoomedTwo = 55 \<and>
   baseWidth (store zoomedTwo ! 0) = 220 \<and>
   baseWidth (store (resizeBy (pointerDownAt 363 181) (pointerDownAt 363 181) 0 zoomedTwo) ! 0) = 200 \<and>
   \<not> gridAligned (resizeBy (pointerDownAt 363 181) (pointerDownAt 363 181) 0 zoomedTwo) \<and>
   baseX (store zoomedTwo ! 0) = 110 \<and>
   baseX (store (pasteCards (copyCards (pressRelease (pointerDownAt 200 180) 0 zoomedTwo))) ! 0) = 121 \<and>
   \<not> gridAligned (pasteCards (copyCards (pressRelease (pointerDownAt 200 180) 0 zoomedTwo))) \<and>
   cards gridThirtyAdded = [0, 1, 2] \<and>
   selectedCards (pressRelease (pointerDownAt 300 250) 2 gridThirtyAdded) = [2] \<and>
   baseWidth (store (pressRelease (pointerDownAt 300 250) 2 gridThirtyAdded) ! 2) = 200 \<and>
   gridSpacing gridThirtyAdded * scale gridThirtyAdded = 30 \<and>
   \<not> gridAligned (pressRelease (pointerDownAt 300 250) 2 gridThirtyAdded) \<and>
   cards firstTwin = [2, 3] \<and> gridSpacing firstTwin * scale firstTwin = 30 \<and>
   selectedCards (pressRelease (pointerDownAt 300 300) 3 firstTwin) = [3] \<and>
   baseX (store (pressRelease (pointerDownAt 300 300) 3 firstTwin) ! 2) = 230 \<and>
   \<not> onGrid (pressRelease (pointerDownAt 300 300) 3 firstTwin) 230 \<and>
   baseWidth (store (zoom (11 / 10) gridThirtyAdded) ! 2) = 220 \<and>
   gridSpacing (zoom (11 / 10) gridThirtyAdded) * scale (zoom (11 / 10) gridThirtyAdded) = 33 \<and>
   \<not> onGrid (zoom (11 / 10) gridThirtyAdded) 220"
  by code_simp

text \<open>
  C4, amended. A drag commit puts x and y of every selected card (an object of the store)
  on the grid, each one snapped, whatever they were before; it leaves every card that is
  not selected, and every width and height, as they are. An accepted zoom leaves x and y
  of every listed card on the new grid, whatever they were before, when the listed cards
  are objects of the store. A resize move sample leaves the dimension that the direction
  of the gesture changes, multiplied by the scale, on the grid (at scale 1 the dimension
  itself), when the scale is not 0 and the resized card is an object of the store. A
  paste of a non-empty clipboard leaves x and y of every listed card, divided by the
  scale, on the grid (at scale 1 x and y themselves), when the scale is not 0 and the
  listed cards are objects of the store. And on a canvas where every card's x, y, width
  and height are multiples of gridSpacing times scale, they still are
  after a drag commit;
  after a zoom, when the listed cards are distinct objects of the store;
  after a resize move sample at scale 1, when the gesture started from values on the grid;
  after a paste at scale 1, when the listed cards are objects of the store and the width
  and height of every clipboard entry are on the grid.
\<close>

theorem gridAligned_after_commit:
  "(\<forall>r \<in> set (selectedCards st). r < length (store st) \<longrightarrow>
      baseX (store (dragUp st) ! r) = snapToGrid st (baseX (store st ! r)) \<and>
      baseY (store (dragUp st) ! r) = snapToGrid st (baseY (store st ! r)) \<and>
      onGrid (dragUp st) (baseX (store (dragUp st) ! r)) \<and>
      onGrid (dragUp st) (baseY (store (dragUp st) ! r))) \<and>
   (\<forall>r. r \<notin> set (selectedCards st) \<longrightarrow> store (dragUp st) ! r = store st ! r) \<and>
   (\<forall>r. baseWidth (store (dragUp st) ! r) = baseWidth (store st ! r) \<and>
        baseHeight (store (dragUp st) ! r) = baseHeight (store st ! r)) \<and>
   (gridAligned st \<longrightarrow> gridAligned (dragUp st)) \<and>
   (refsValid st \<and> zoomAccepted delta st \<longrightarrow> positionsOnGrid (zoom delta st)) \<and>
   (gridAligned st \<and> refsValid st \<and> distinct (cards st) \<longrightarrow> gridAligned (zoom delta st)) \<and>
   (scale st \<noteq> 0 \<and> res_card g < length (store st) \<longrightarrow>
      (movesWidth (res_direction g) \<longrightarrow>
         onGrid st (baseWidth (store (resizeMove g e st) ! res_card g) * scale st)) \<and>
      (movesHeight (res_direction g) \<longrightarrow>
         onGrid st (baseHeight (store (resizeMove g e st) ! res_card g) * scale st))) \<and>
   (gridAligned st \<and> scale st = 1 \<and> onGrid st (initialX g) \<and> onGrid st (initialY g) \<and>
    onGrid st (initialWidth g) \<and> onGrid st (initialHeight g) \<longrightarrow>
      gridAligned (resizeMove g e st)) \<and>
   (scale st \<noteq> 0 \<and> refsValid st \<and> clipboard st \<noteq> [] \<longrightarrow>
      (\<forall>r \<in> set (cards (pasteCards st)).
         onGrid (pasteCards st) (baseX (store (pasteCards st) ! r) / scale st) \<and>
         onGrid (pasteCards st) (baseY (store (pasteCards st) ! r) / scale st))) \<and>
   (scale st = 1 \<and> refsValid st \<and> clipboard st \<noteq> [] \<longrightarrow> positionsOnGrid (pasteCards st)) \<and>
   (gridAligned st \<and> scale st = 1 \<and> refsValid st \<and>
    (\<forall>item \<in> set (clipboard st).
       onGrid st (item_baseWidth item) \<and> onGrid st (item_baseHeight item)) \<longrightarrow>
      gridAligned (pasteCards st))"
proof -
  have og: "onGrid (dragUp st) v = onGrid st v" for v
    using dragUp_frame [of st] by (intro onGrid_cong) simp_all
  have d1: "\<forall>r \<in> set (selectedCards st). r < length (store st) \<longrightarrow>
      baseX (store (dragUp st) ! r) = snapToGrid st (baseX (store st ! r)) \<and>
      baseY (store (dragUp st) ! r) = snapToGrid st (baseY (store st ! r)) \<and>
      onGrid (dragUp st) (baseX (store (dragUp st) ! r)) \<and>
      onGrid (dragUp st) (baseY (store (dragUp st) ! r))"
    using dragUp_selected [of _ st] by (simp add: og onGrid_snapToGrid)
  have d2: "\<forall>r. r \<notin> set (selectedCards st) \<longrightarrow> store (dragUp st) ! r = store st ! r"
    using dragUp_unselected [of _ st] by blast
  have d3: "\<forall>r. baseWidth (store (dragUp st) ! r) = baseWidth (store st ! r) \<and>
        baseHeight (store (dragUp st) ! r) = baseHeight (store st ! r)"
    using dragUp_size [of st] by blast
  have p1: "scale st \<noteq> 0 \<and> refsValid st \<and> clipboard st \<noteq> [] \<longrightarrow>
      (\<forall>r \<in> set (cards (pasteCards st)).
         onGrid (pasteCards st) (baseX (store (pasteCards st) ! r) / scale st) \<and>
         onGrid (pasteCards st) (baseY (store (pasteCards st) ! r) / scale st))"
    using pasteCards_positions [of st] by blast
  have p2: "scale st = 1 \<and> refsValid st \<and> clipboard st \<noteq> [] \<longrightarrow> positionsOnGrid (pasteCards st)"
  proof (intro impI)
    assume a: "scale st = 1 \<and> refsValid st \<and> clipboard st \<noteq> []"
    show "positionsOnGrid (pasteCards st)"
      unfolding positionsOnGrid_def
    proof
      fix r assume "r \<in> set (cards (pasteCards st))"
      then show "onGrid (pasteCards st) (baseX (store (pasteCards st) ! r)) \<and>
                 onGrid (pasteCards st) (baseY (store (pasteCards st) ! r))"
        using pasteCards_positions [of st r] a by simp
    qed
  qed
  have a1: "gridAligned st \<longrightarrow> gridAligned (dragUp st)"
    using gridAligned_dragUp [of st] by blast
  have z1: "refsValid st \<and> zoomAccepted delta st \<longrightarrow> positionsOnGrid (zoom delta st)"
    using positionsOnGrid_zoom [of st delta] by blast
  have z2: "gridAligned st \<and> refsValid st \<and> distinct (cards st) \<longrightarrow> gridAligned (zoom delta st)"
    using gridAligned_zoom [of st delta] by blast
  have r1: "scale st \<noteq> 0 \<and> res_card g < length (store st) \<longrightarrow>
      (movesWidth (res_direction g) \<longrightarrow>
         onGrid st (baseWidth (store (resizeMove g e st) ! res_card g) * scale st)) \<and>
      (movesHeight (res_direction g) \<longrightarrow>
         onGrid st (baseHeight (store (resizeMove g e st) ! res_card g) * scale st))"
    using resizeMove_dimension_onGrid [of st g e] by blast
  have r2: "gridAligned st \<and> scale st = 1 \<and> onGrid st (initialX g) \<and> onGrid st (initialY g) \<and>
    onGrid st (initialWidth g) \<and> onGrid st (initialHeight g) \<longrightarrow>
      gridAligned (resizeMove g e st)"
    using gridAligned_resizeMove [of st g e] by blast
  have p3: "gridAligned st \<and> scale st = 1 \<and> refsValid st \<and>
    (\<forall>item \<in> set (clipboard st).
       onGrid st (item_baseWidth item) \<and> onGrid st (item_baseHeight item)) \<longrightarrow>
      gridAligned (pasteCards st)"
    using gridAligned_pasteCards [of st] by blast
  show ?thesis
    by (intro conjI) (rule d1 d2 d3 a1 z1 z2 r1 r2 p1 p2 p3)+
qed

theorem gridAligned_after_commit_witness:
  "selectedCards twinCopied = [2] \<and> cards twinCopied = [2, 3] \<and>
   gridSpacing twinCopied = 30 \<and> scale twinCopied = 1 \<and>
   baseX (store twinCopied ! 2) = 230 \<and> baseY (store twinCopied ! 2) = 220 \<and>
   \<not> onGrid twinCopied 230 \<and> \<not> onGrid twinCopied 220 \<and>
   baseX (store (dragUp twinCopied) ! 2) = 240 \<and> baseY (store (dragUp twinCopied) ! 2) = 210 \<and>
   onGrid (dragUp twinCopied) 240 \<and> onGrid (dragUp twinCopied) 210 \<and>
   store (dragUp twinCopied) ! 3 = store twinCopied ! 3 \<and>
   positionsOnGrid (zoom (11 / 10) twinCopied) \<and>
   snd (onCardMouseDown (pointerDownAt 408 260) 2 twinCopied) = Resize rightEdgeGrab \<and>
   onGrid twinCopied
     (baseWidth (store (resizeMove rightEdgeGrab (pointerDownAt 440 260) twinCopied) ! 2)) \<and>
   length (clipboard twinCopied) = 1 \<and>
   positionsOnGrid (pasteCards twinCopied) \<and>
   gridAligned pastedPair \<and> refsValid pastedPair \<and> distinct (cards pastedPair) \<and>
   scale pastedPair = 1 \<and>
   snd (onCardMouseDown (pointerDownAt 300 200) 0 pastedPair) = Resize cornerGrab \<and>
   length (clipboard pastedPair) = 2 \<and>
   gridAligned (dragUp pastedPair) \<and>
   gridAligned (zoom (11 / 10) pastedPair) \<and>
   gridAligned (resizeMove cornerGrab (pointerDownAt 180 120) pastedPair) \<and>
   gridAligned (pasteCards pastedPair)"
proof -
  have pre1: "selectedCards twinCopied = [2] \<and> cards twinCopied = [2, 3] \<and>
     gridSpacing twinCopied = 30 \<and> scale twinCopied = 1 \<and>
     length (store twinCopied) = 4 \<and>
     baseX (store twinCopied ! 2) = 230 \<and> baseY (store twinCopied ! 2) = 220 \<and>
     \<not> onGrid twinCopied 230 \<and> \<not> onGrid twinCopied 220 \<and>
     snapToGrid twinCopied 230 = 240 \<and> snapToGrid twinCopied 220 = 210 \<and>
     refsValid twinCopied \<and> zoomAccepted (11 / 10) twinCopied \<and>
     snd (onCardMouseDown (pointerDownAt 408 260) 2 twinCopied) = Resize rightEdgeGrab \<and>
     res_card rightEdgeGrab = 2 \<and> movesWidth (res_direction rightEdgeGrab) \<and>
     length (clipboard twinCopied) = 1"
    by code_simp
  have pre2: "gridAligned pastedPair \<and> refsValid pastedPair \<and> distinct (cards pastedPair) \<and>
     scale pastedPair = 1 \<and>
     snd (onCardMouseDown (pointerDownAt 300 200) 0 pastedPair) = Resize cornerGrab \<and>
     length (clipboard pastedPair) = 2 \<and>
     onGrid pastedPair (initialX cornerGrab) \<and> onGrid pastedPair (initialY cornerGrab) \<and>
     onGrid pastedPair (initialWidth cornerGrab) \<and> onGrid pastedPair (initialHeight cornerGrab) \<and>
     list_all (\<lambda>item. onGrid pastedPair (item_baseWidth item) \<and>
                       onGrid pastedPair (item_baseHeight item)) (clipboard pastedPair)"
    by code_simp
  note A = gridAligned_after_commit [of twinCopied "11 / 10" rightEdgeGrab "pointerDownAt 440 260"]
  note B = gridAligned_after_commit [of pastedPair "11 / 10" cornerGrab "pointerDownAt 180 120"]
  have a0: "baseX (store (dragUp twinCopied) ! 2) = 240 \<and> baseY (store (dragUp twinCopied) ! 2) = 210"
    using A [THEN conjunct1] pre1 by simp
  have a1: "onGrid (dragUp twinCopied) 240 \<and> onGrid (dragUp twinCopied) 210"
    using A [THEN conjunct1] pre1 a0 by simp
  have a2: "store (dragUp twinCopied) ! 3 = store twinCopied ! 3"
    using A [THEN conjunct2, THEN conjunct1] pre1 by simp
  have a3: "positionsOnGrid (zoom (11 / 10) twinCopied)"
    using A [THEN conjunct2, THEN conjunct2, THEN conjunct2, THEN conjunct2, THEN conjunct1] pre1
    by simp
  have a4: "onGrid twinCopied
     (baseWidth (store (resizeMove rightEdgeGrab (pointerDownAt 440 260) twinCopied) ! 2))"
    using A [THEN conjunct2, THEN conjunct2, THEN conjunct2, THEN conjunct2, THEN conjunct2,
        THEN conjunct2, THEN conjunct1] pre1
    by simp
  have ne: "clipboard twinCopied \<noteq> []"
    using pre1 by auto
  have a5: "positionsOnGrid (pasteCards twinCopied)"
    using A [THEN conjunct2, THEN conjunct2, THEN conjunct2, THEN conjunct2, THEN conjunct2,
        THEN conjunct2, THEN conjunct2, THEN conjunct2, THEN conjunct2, THEN conjunct1] pre1 ne
    by simp
  have b1: "gridAligned (dragUp pastedPair)"
    using B [THEN conjunct2, THEN conjunct2, THEN conjunct2, THEN conjunct1] pre2 by simp
  have b2: "gridAligned (zoom (11 / 10) pastedPair)"
    using B [THEN conjunct2, THEN conjunct2, THEN conjunct2, THEN conjunct2, THEN conjunct2,
        THEN conjunct1] pre2 by simp
  have b3: "gridAligned (resizeMove cornerGrab (pointerDownAt 180 120) pastedPair)"
    using B [THEN conjunct2, THEN conjunct2, THEN conjunct2, THEN conjunct2, THEN conjunct2,
        THEN conjunct2, THEN conjunct2, THEN conjunct1] pre2 by simp
  have b4: "gridAligned (pasteCards pastedPair)"
    using B [THEN conjunct2, THEN conjunct2, THEN conjunct2, THEN conjunct2, THEN conjunct2,
        THEN conjunct2, THEN conjunct2, THEN conjunct2, THEN conjunct2, THEN conjunct2] pre2
    by (simp add: list_all_iff)
  show ?thesis
    using pre1 pre2 a0 a1 a2 a3 a4 a5 b1 b2 b3 b4 by simp
qed

subsection \<open>Connectors created by a paste\<close>

lemma pasteConn_connectors:
  assumes "\<forall>k v. m k = Some v \<longrightarrow> lo \<le> v \<and> v < hi"
  shows "\<exists>new. connectors (pasteConn m conn st) = connectors st @ new \<and>
           (\<forall>c \<in> set new. lo \<le> from_c c \<and> from_c c < hi \<and> lo \<le> to_c c \<and> to_c c < hi \<and>
                           from_c c \<noteq> to_c c)"
  using assms by (auto simp: pasteConn_def split: option.split)

lemma fold_pasteConn_connectors:
  assumes "\<forall>k v. m k = Some v \<longrightarrow> lo \<le> v \<and> v < hi"
  shows "\<exists>new. connectors (fold (pasteConn m) conns st) = connectors st @ new \<and>
           (\<forall>c \<in> set new. lo \<le> from_c c \<and> from_c c < hi \<and> lo \<le> to_c c \<and> to_c c < hi \<and>
                           from_c c \<noteq> to_c c)"
proof (induction conns arbitrary: st)
  case Nil
  then show ?case by simp
next
  case (Cons conn conns)
  obtain n1 where n1: "connectors (pasteConn m conn st) = connectors st @ n1"
      "\<forall>c \<in> set n1. lo \<le> from_c c \<and> from_c c < hi \<and> lo \<le> to_c c \<and> to_c c < hi \<and> from_c c \<noteq> to_c c"
    using pasteConn_connectors [OF assms, of conn st] by blast
  obtain n2 where n2: "connectors (fold (pasteConn m) conns (pasteConn m conn st)) =
        connectors (pasteConn m conn st) @ n2"
      "\<forall>c \<in> set n2. lo \<le> from_c c \<and> from_c c < hi \<and> lo \<le> to_c c \<and> to_c c < hi \<and> from_c c \<noteq> to_c c"
    using Cons.IH [of "pasteConn m conn st"] by blast
  show ?case
    using n1 n2 by (intro exI [of _ "n1 @ n2"]) auto
qed

lemma fold_items_pasteConn_connectors:
  assumes "\<forall>k v. m k = Some v \<longrightarrow> lo \<le> v \<and> v < hi"
  shows "\<exists>new. connectors (fold (\<lambda>item s. fold (pasteConn m) (connections item) s) items st) =
             connectors st @ new \<and>
           (\<forall>c \<in> set new. lo \<le> from_c c \<and> from_c c < hi \<and> lo \<le> to_c c \<and> to_c c < hi \<and>
                           from_c c \<noteq> to_c c)"
proof (induction items arbitrary: st)
  case Nil
  then show ?case by simp
next
  case (Cons item items)
  let ?s = "fold (pasteConn m) (connections item) st"
  obtain n1 where n1: "connectors ?s = connectors st @ n1"
      "\<forall>c \<in> set n1. lo \<le> from_c c \<and> from_c c < hi \<and> lo \<le> to_c c \<and> to_c c < hi \<and> from_c c \<noteq> to_c c"
    using fold_pasteConn_connectors [OF assms, of "connections item" st] by blast
  obtain n2 where n2: "connectors (fold (\<lambda>item s. fold (pasteConn m) (connections item) s) items ?s) =
        connectors ?s @ n2"
      "\<forall>c \<in> set n2. lo \<le> from_c c \<and> from_c c < hi \<and> lo \<le> to_c c \<and> to_c c < hi \<and> from_c c \<noteq> to_c c"
    using Cons.IH [of ?s] by blast
  show ?case
    using n1 n2 by (intro exI [of _ "n1 @ n2"]) auto
qed

text \<open>The title map built while the cards are created holds addresses of new cards only.\<close>

lemma fold_pasteItem_map:
  assumes "\<forall>k v. snd acc k = Some v \<longrightarrow> lo \<le> v \<and> v < length (store (fst acc))"
    and "lo \<le> length (store (fst acc))"
  shows "(\<forall>k v. snd (fold pasteItem items acc) k = Some v \<longrightarrow>
            lo \<le> v \<and> v < length (store (fst (fold pasteItem items acc)))) \<and>
         lo \<le> length (store (fst (fold pasteItem items acc))) \<and>
         connectors (fst (fold pasteItem items acc)) = connectors (fst acc)"
  using assms
proof (induction items arbitrary: acc)
  case Nil
  then show ?case by simp
next
  case (Cons item items)
  let ?acc = "pasteItem item acc"
  have st: "store (fst ?acc) = store (fst acc) @ [pastedCard (fst acc) item]"
      "connectors (fst ?acc) = connectors (fst acc)"
    using pasteItem_state [of item acc] by simp_all
  have m: "snd ?acc = (snd acc)(item_title item \<mapsto> length (store (fst acc)))"
    by (simp add: pasteItem_def Let_def)
  have 1: "\<forall>k v. snd ?acc k = Some v \<longrightarrow> lo \<le> v \<and> v < length (store (fst ?acc))"
    using Cons.prems by (auto simp: m st less_Suc_eq)
  have 2: "lo \<le> length (store (fst ?acc))"
    using Cons.prems(2) by (simp add: st)
  show ?case
    using Cons.IH [OF 1 2] st by simp
qed

text \<open>
  Whatever the clipboard holds, a paste keeps the existing connectors in place and every
  connector it adds joins two different cards created by that same paste.
\<close>

lemma pasteCards_connectors:
  "\<exists>new. connectors (pasteCards st) = connectors st @ new \<and>
     (\<forall>c \<in> set new.
        length (store st) \<le> from_c c \<and> from_c c < length (store (pasteCards st)) \<and>
        length (store st) \<le> to_c c \<and> to_c c < length (store (pasteCards st)) \<and>
        from_c c \<noteq> to_c c)"
proof (cases "clipboard st = []")
  case True
  then show ?thesis by (simp add: pasteCards_def)
next
  case False
  define created where "created = fold pasteItem (clipboard st) (clearSelection st, Map.empty)"
  define wired where "wired = fold (\<lambda>item s. fold (pasteConn (snd created)) (connections item) s)
                         (clipboard st) (fst created)"
  have p: "pasteCards st = preventOverlapsAfterPaste wired"
    using False by (simp add: pasteCards_def Let_def created_def wired_def)
  have c: "(\<forall>k v. snd created k = Some v \<longrightarrow>
              length (store st) \<le> v \<and> v < length (store (fst created)))"
      "connectors (fst created) = connectors st"
    unfolding created_def
    using fold_pasteItem_map [of "(clearSelection st, Map.empty)" "length (store st)" "clipboard st"]
    by simp_all
  obtain new where new: "connectors wired = connectors (fst created) @ new"
      "\<forall>c \<in> set new. length (store st) \<le> from_c c \<and> from_c c < length (store (fst created)) \<and>
          length (store st) \<le> to_c c \<and> to_c c < length (store (fst created)) \<and> from_c c \<noteq> to_c c"
    unfolding wired_def
    using fold_items_pasteConn_connectors [OF c(1), of "clipboard st" "fst created"] by blast
  have len: "length (store (pasteCards st)) = length (store (fst created))"
    using p preventOverlapsAfterPaste_frame [of wired]
      fold_items_pasteConn_frame [of "snd created" "clipboard st" "fst created"]
    by (simp add: wired_def)
  have "connectors (pasteCards st) = connectors st @ new"
    using p preventOverlapsAfterPaste_frame [of wired] new(1) c(2) by simp
  then show ?thesis
    using new(2) len by (intro exI [of _ new]) simp
qed

text \<open>
  C1, at the specification's own example: the two start-up cards are connected, both are
  selected and copied, and the clipboard is pasted once. The paste adds two cards, but it
  adds two connectors between the two new cards, not one: the connector is recorded in the
  clipboard entry of each of its endpoints and is rebuilt once per entry. The canvas ends
  with three connectors. Copying the two new cards, which are left selected, and pasting
  again adds two more cards and no connector at all: the copies carry the titles of
  their originals, and the endpoint ids \<open>card3\<close> and \<open>card4\<close> are looked up as
  titles that no pasted card has.
\<close>

theorem copy_paste_duplicates_connector:
  "selectedCards bothSelected = [0, 1] \<and>
   connectors bothSelected = [\<lparr>from_c = 0, to_c = 1\<rparr>] \<and>
   cards pastedPair = [0, 1, 2, 3] \<and>
   connectors pastedPair =
     [\<lparr>from_c = 0, to_c = 1\<rparr>, \<lparr>from_c = 2, to_c = 3\<rparr>, \<lparr>from_c = 2, to_c = 3\<rparr>] \<and>
   length (connectors pastedPair) = 3 \<and>
   selectedCards pastedPair = [2, 3] \<and>
   cards (pasteCards (copyCards pastedPair)) = [0, 1, 2, 3, 4, 5] \<and>
   connectors (pasteCards (copyCards pastedPair)) = connectors pastedPair"
  by code_simp

text \<open>
  C9, on a canvas where the first card is connected to the second and a pasted copy of the
  second (which keeps the title \<open>Card 2\<close>) exists: the first card and that copy are
  selected and copied. The only copied connector joins the first card to the second card,
  which is not among the copied cards. Pasting does not drop it: its endpoint id
  \<open>card2\<close> is looked up as the title \<open>Card 2\<close>, which the copy carries, so a connector
  is created between the two new cards.
\<close>

theorem paste_rewires_uncopied_endpoint:
  "selectedCards mixedSelection = [0, 2] \<and>
   cards mixedSelection = [0, 1, 2] \<and>
   connectors mixedSelection = [\<lparr>from_c = 0, to_c = 1\<rparr>] \<and>
   map connections (clipboard (copyCards mixedSelection)) =
     [[\<lparr>fromId = ''card1'', toId = ''card2''\<rparr>], []] \<and>
   cards (pasteCards (copyCards mixedSelection)) = [0, 1, 2, 3, 4] \<and>
   connectors (pasteCards (copyCards mixedSelection)) =
     [\<lparr>from_c = 0, to_c = 1\<rparr>, \<lparr>from_c = 3, to_c = 4\<rparr>]"
  by code_simp

subsection \<open>The connect-toggle on a canvas without duplicate connectors\<close>

lemma findIndex_None: "findIndex P xs = None \<longleftrightarrow> (\<forall>x \<in> set xs. \<not> P x)"
  by (induction xs) auto

lemma findIndex_Some:
  "findIndex P xs = Some i \<Longrightarrow> i < length xs \<and> P (xs ! i) \<and> (\<forall>j < i. \<not> P (xs ! j))"
proof (induction xs arbitrary: i)
  case Nil
  then show ?case by simp
next
  case (Cons x xs)
  show ?case
  proof (cases "P x")
    case True
    then show ?thesis using Cons.prems by simp
  next
    case False
    then obtain k where k: "findIndex P xs = Some k" "i = Suc k"
      using Cons.prems by auto
    then show ?thesis
      using Cons.IH [OF k(1)] False by (auto simp: less_Suc_eq_0_disj)
  qed
qed

lemma findIndex_append_last:
  assumes "\<forall>x \<in> set xs. \<not> P x" and "P y"
  shows "findIndex P (xs @ [y]) = Some (length xs)"
  using assms by (induction xs) simp_all

lemma joins_commute: "joins b a = joins a b"
  by (auto simp: joins_def fun_eq_iff)

lemma connectToggle_eq:
  assumes "a \<noteq> b" and "connectingFrom st = None"
  shows "connectToggle a b st =
           st\<lparr>connectors :=
                 (case findIndex (joins a b) (connectors st) of
                    Some i \<Rightarrow> splice1 i (connectors st)
                  | None \<Rightarrow> connectors st @ [\<lparr>from_c = a, to_c = b\<rparr>]),
              connectingFrom := None\<rparr>"
  using assms
  by (simp add: connectToggle_def altClickOn_def altClickEvent_def onCardMouseDown_def
      onCardClick_def joins_def [abs_def] split: option.split)

text \<open>
  When at most one connector joins the two cards, two toggles in succession, the second
  in either order of the pair, restore the set of connected pairs; when none joined them,
  they restore the connector list itself.
\<close>

lemma connectToggle_twice:
  assumes ab: "a \<noteq> b" and cf: "connectingFrom st = None"
    and one: "length (filter (joins a b) (connectors st)) \<le> 1"
    and second: "(a', b') = (a, b) \<or> (a', b') = (b, a)"
  shows "connectorPairs (connectToggle a' b' (connectToggle a b st)) = connectorPairs st \<and>
         (findIndex (joins a b) (connectors st) = None \<longrightarrow>
            connectors (connectToggle a' b' (connectToggle a b st)) = connectors st)"
proof -
  let ?xs = "connectors st"
  let ?t = "connectToggle a b st"
  have ab': "a' \<noteq> b'" and j: "joins a' b' = joins a b"
    and pair: "{a', b'} = {a, b}"
    using second ab joins_commute [of a b] by auto
  have t: "?t = st\<lparr>connectors :=
                 (case findIndex (joins a b) ?xs of
                    Some i \<Rightarrow> splice1 i ?xs
                  | None \<Rightarrow> ?xs @ [\<lparr>from_c = a, to_c = b\<rparr>]),
              connectingFrom := None\<rparr>"
    using ab cf by (rule connectToggle_eq)
  then have cft: "connectingFrom ?t = None" by simp
  have tt: "connectToggle a' b' ?t =
      ?t\<lparr>connectors :=
                 (case findIndex (joins a b) (connectors ?t) of
                    Some i \<Rightarrow> splice1 i (connectors ?t)
                  | None \<Rightarrow> connectors ?t @ [\<lparr>from_c = a', to_c = b'\<rparr>]),
              connectingFrom := None\<rparr>"
    using connectToggle_eq [OF ab' cft] by (simp add: j)
  show ?thesis
  proof (cases "findIndex (joins a b) ?xs")
    case None
    then have no: "\<forall>x \<in> set ?xs. \<not> joins a b x"
      by (simp add: findIndex_None)
    have ct: "connectors ?t = ?xs @ [\<lparr>from_c = a, to_c = b\<rparr>]"
      using t None by (simp add: cong: option.case_cong)
    have "findIndex (joins a b) (connectors ?t) = Some (length ?xs)"
      unfolding ct using no by (intro findIndex_append_last) (simp_all add: joins_def)
    then have "connectors (connectToggle a' b' ?t) = ?xs"
      using tt ct by (simp add: splice1_def)
    then show ?thesis
      by (simp add: connectorPairs_def)
  next
    case (Some i)
    then have i: "i < length ?xs" "joins a b (?xs ! i)"
      using findIndex_Some [of "joins a b" ?xs i] by simp_all
    have ct: "connectors ?t = take i ?xs @ drop (Suc i) ?xs"
      using t Some by (simp add: splice1_def)
    have split: "?xs = take i ?xs @ ?xs ! i # drop (Suc i) ?xs"
      using i(1) by (rule id_take_nth_drop)
    have "length (filter (joins a b) ?xs) =
        length (filter (joins a b) (take i ?xs)) + 1 + length (filter (joins a b) (drop (Suc i) ?xs))"
      by (subst split) (simp add: i(2))
    then have "filter (joins a b) (take i ?xs @ drop (Suc i) ?xs) = []"
      using one by simp
    then have "\<forall>x \<in> set (connectors ?t). \<not> joins a b x"
      unfolding ct by (auto simp: filter_empty_conv)
    then have "findIndex (joins a b) (connectors ?t) = None"
      by (simp add: findIndex_None)
    then have ctt: "connectors (connectToggle a' b' ?t) =
        take i ?xs @ drop (Suc i) ?xs @ [\<lparr>from_c = a', to_c = b'\<rparr>]"
      using tt ct by simp
    have "{from_c (?xs ! i), to_c (?xs ! i)} = {a, b}"
      using i(2) by (auto simp: joins_def)
    then have "(\<lambda>c. {from_c c, to_c c}) ` set ?xs =
        (\<lambda>c. {from_c c, to_c c}) ` set (take i ?xs @ drop (Suc i) ?xs @ [\<lparr>from_c = a', to_c = b'\<rparr>])"
      by (subst split) (auto simp: pair)
    then show ?thesis
      using ctt Some by (simp add: connectorPairs_def)
  qed
qed

text \<open>
  C7, on the canvas left by copying and pasting the connected start-up pair: the two new
  cards are joined by two connectors. The first toggle of the pair removes one of them,
  the second toggle finds the other and removes it too, so after two toggles the pair is
  no longer connected and the connected pairs are not those of the start.
\<close>

theorem toggle_twice_after_paste:
  "connectors pastedPair =
     [\<lparr>from_c = 0, to_c = 1\<rparr>, \<lparr>from_c = 2, to_c = 3\<rparr>, \<lparr>from_c = 2, to_c = 3\<rparr>] \<and>
   connectors (connectToggle 2 3 pastedPair) =
     [\<lparr>from_c = 0, to_c = 1\<rparr>, \<lparr>from_c = 2, to_c = 3\<rparr>] \<and>
   connectors (connectToggle 2 3 (connectToggle 2 3 pastedPair)) = [\<lparr>from_c = 0, to_c = 1\<rparr>]"
  by code_simp

end
